theory Spec2Isabelle
  imports Main
begin

section \<open>Constants of the Lambda handler\<close>

definition dbFileName :: string where
  "dbFileName = ''database.db''"

definition lockTimeoutMinutes :: int where
  "lockTimeoutMinutes = 5"

section \<open>Wall-clock time\<close>

text \<open>
  A Go \<^verbatim>\<open>time.Time\<close> read from the wall clock is modelled as the number of
  nanoseconds since the Unix epoch, a \<^verbatim>\<open>time.Duration\<close> as a number of nanoseconds.
  \<^verbatim>\<open>Unix()\<close> is the number of whole seconds (rounded down), \<^verbatim>\<open>UnixNano()\<close> the
  number of nanoseconds. Wall-clock readings are far from the bounds of int64, so the
  arithmetic is written on unbounded integers.
\<close>

type_synonym Time = int
type_synonym Duration = int

definition Second :: Duration where
  "Second = 1000000000"

definition Minute :: Duration where
  "Minute = 60 * Second"

definition Unix :: "Time \<Rightarrow> int" where
  "Unix t = t div 1000000000"

definition UnixNano :: "Time \<Rightarrow> int" where
  "UnixNano t = t"

definition Add :: "Time \<Rightarrow> Duration \<Rightarrow> Time" where
  "Add t d = t + d"

section \<open>Formatting\<close>

text \<open>The \<^verbatim>\<open>%d\<close> verb of \<^verbatim>\<open>fmt.Sprintf\<close>: the decimal digits, with a minus sign.\<close>

fun nat_digits :: "nat \<Rightarrow> string" where
  "nat_digits n =
     (if n < 10 then [char_of (48 + n)]
      else nat_digits (n div 10) @ [char_of (48 + n mod 10)])"

declare nat_digits.simps [simp del]

definition Sprintf_d :: "int \<Rightarrow> string" where
  "Sprintf_d i = (if i < 0 then CHR ''-'' # nat_digits (nat (- i)) else nat_digits (nat i))"

section \<open>Data\<close>

record LockItem =
  DatabaseName :: string
  InstanceID :: string
  LeaseTimeout :: int
  CreatedAt :: int

datatype aws_error = ConditionalCheckFailedException | NoSuchKey | ServiceFault

datatype error =
    AwsErr aws_error
  | OsErr string
  | ErrorMsg string
  | Errorf string error

text \<open>
  The \<^verbatim>\<open>%v\<close> verb on an error prints its message. \<open>Errorf p e\<close> is
  \<^verbatim>\<open>fmt.Errorf(p + "%v", e)\<close>. For an error of the AWS SDK only its code is kept (the
  SDK appends a status code and a request id); for an error of the operating system the
  message is the one given.
\<close>

fun Sprintf_v :: "error \<Rightarrow> string" where
  "Sprintf_v (AwsErr ConditionalCheckFailedException) = ''ConditionalCheckFailedException''"
| "Sprintf_v (AwsErr NoSuchKey) = ''NoSuchKey''"
| "Sprintf_v (AwsErr ServiceFault) = ''ServiceFault''"
| "Sprintf_v (OsErr m) = m"
| "Sprintf_v (ErrorMsg m) = m"
| "Sprintf_v (Errorf p e) = p @ Sprintf_v e"

section \<open>The lock table\<close>

text \<open>
  The DynamoDB table \<^verbatim>\<open>CloudSQLite-Locks\<close> has the hash key \<^verbatim>\<open>database_name\<close>, so it
  holds at most one item per database name: a partial map from the key to the item.
  Every item is of the shape of a \<open>LockItem\<close> (the only writer is
  \<open>acquireDynamoLock\<close>), so \<^verbatim>\<open>MarshalMap\<close> and \<^verbatim>\<open>UnmarshalMap\<close> are the identity and
  their error branches are not reached.

  The three requests of the handler, as the store evaluates them, each atomically:
  \<^item> \<^verbatim>\<open>GetItem\<close> by key;
  \<^item> \<^verbatim>\<open>PutItem\<close> under the condition \<^verbatim>\<open>attribute_not_exists(database_name)\<close>, which
    holds exactly when no item with the key of the new item exists;
  \<^item> \<^verbatim>\<open>DeleteItem\<close> under the condition \<^verbatim>\<open>instance_id = :instance_id\<close>, which holds
    exactly when an item with the key exists and its \<^verbatim>\<open>instance_id\<close> is the given one.
  A request whose condition fails changes nothing and reports
  \<^verbatim>\<open>ConditionalCheckFailedException\<close>.
\<close>

type_synonym lock_table = "string \<rightharpoonup> LockItem"

definition table_GetItem :: "lock_table \<Rightarrow> string \<Rightarrow> LockItem option" where
  "table_GetItem tbl k = tbl k"

definition table_PutItem :: "lock_table \<Rightarrow> LockItem \<Rightarrow> aws_error + lock_table" where
  "table_PutItem tbl item =
     (case tbl (DatabaseName item) of
        None \<Rightarrow> Inr (tbl(DatabaseName item \<mapsto> item))
      | Some _ \<Rightarrow> Inl ConditionalCheckFailedException)"

definition table_DeleteItem :: "lock_table \<Rightarrow> string \<Rightarrow> string \<Rightarrow> aws_error + lock_table" where
  "table_DeleteItem tbl k h =
     (case tbl k of
        None \<Rightarrow> Inl ConditionalCheckFailedException
      | Some x \<Rightarrow>
          if InstanceID x = h then Inr (tbl(k := None))
          else Inl ConditionalCheckFailedException)"

section \<open>The world of one invocation\<close>

text \<open>
  Everything outside the process is one explicit state: the lock table, the S3 bucket
  (object key to content), the local files under \<^verbatim>\<open>/tmp\<close> (path to content), the wall
  clock and the availability of the services.

  The clock is the sequence of readings that successive calls of \<^verbatim>\<open>time.Now()\<close>
  return; \<open>ticks\<close> counts the readings taken. Every call that leaves the process is
  appended to \<open>trace\<close>. A call fails for a reason of the infrastructure (the service is
  unreachable, the disk is full) when \<open>fault\<close> holds at its position in the trace; such
  a call has no effect.
\<close>

datatype event =
    EvGetItem string
  | EvPutItem LockItem
  | EvDeleteItem string string
  | EvGetObject string
  | EvPutObject string
  | EvCreate string
  | EvReadFrom string
  | EvOpen string
  | EvRemove string

record world =
  lock_items :: lock_table
  bucket :: "string \<rightharpoonup> string"
  files :: "string \<rightharpoonup> string"
  clock :: "nat \<Rightarrow> Time"
  ticks :: nat
  fault :: "nat \<Rightarrow> bool"
  trace :: "event list"

definition time_Now :: "world \<Rightarrow> Time \<times> world" where
  "time_Now w = (clock w (ticks w), w\<lparr>ticks := Suc (ticks w)\<rparr>)"

definition faulted :: "world \<Rightarrow> bool" where
  "faulted w = fault w (length (trace w))"

definition emit :: "event \<Rightarrow> world \<Rightarrow> world" where
  "emit e w = w\<lparr>trace := trace w @ [e]\<rparr>"

subsection \<open>The DynamoDB client\<close>

definition GetItem :: "world \<Rightarrow> string \<Rightarrow> (aws_error + LockItem option) \<times> world" where
  "GetItem w k =
     (if faulted w then (Inl ServiceFault, emit (EvGetItem k) w)
      else (Inr (table_GetItem (lock_items w) k), emit (EvGetItem k) w))"

definition PutItem :: "world \<Rightarrow> LockItem \<Rightarrow> (aws_error + unit) \<times> world" where
  "PutItem w item =
     (if faulted w then (Inl ServiceFault, emit (EvPutItem item) w)
      else
        (case table_PutItem (lock_items w) item of
           Inl e \<Rightarrow> (Inl e, emit (EvPutItem item) w)
         | Inr tbl \<Rightarrow> (Inr (), emit (EvPutItem item) (w\<lparr>lock_items := tbl\<rparr>))))"

definition DeleteItem :: "world \<Rightarrow> string \<Rightarrow> string \<Rightarrow> (aws_error + unit) \<times> world" where
  "DeleteItem w k h =
     (if faulted w then (Inl ServiceFault, emit (EvDeleteItem k h) w)
      else
        (case table_DeleteItem (lock_items w) k h of
           Inl e \<Rightarrow> (Inl e, emit (EvDeleteItem k h) w)
         | Inr tbl \<Rightarrow> (Inr (), emit (EvDeleteItem k h) (w\<lparr>lock_items := tbl\<rparr>))))"

section \<open>The lease lock manager\<close>

text \<open>A Go \<^verbatim>\<open>error\<close> result is an \<open>error option\<close>: \<open>None\<close> is \<^verbatim>\<open>nil\<close>.\<close>

definition releaseDynamoLock :: "world \<Rightarrow> string \<Rightarrow> string \<Rightarrow> error option \<times> world" where
  "releaseDynamoLock w databaseName instanceID =
     (case DeleteItem w databaseName instanceID of
        (Inl e, w') \<Rightarrow> (Some (AwsErr e), w')
      | (Inr _, w') \<Rightarrow> (None, w'))"

text \<open>
  The second half of \<^verbatim>\<open>acquireDynamoLock\<close>, from \<^verbatim>\<open>now := time.Now()\<close> to the end: it
  builds the new item and puts it under the condition that no item exists.
\<close>

definition newLockItem :: "string \<Rightarrow> string \<Rightarrow> Time \<Rightarrow> LockItem" where
  "newLockItem databaseName instanceID now =
     \<lparr>DatabaseName = databaseName,
      InstanceID = instanceID,
      LeaseTimeout = Unix (Add now (lockTimeoutMinutes * Minute)),
      CreatedAt = Unix now\<rparr>"

definition acquireDynamoLock_put :: "world \<Rightarrow> string \<Rightarrow> string \<Rightarrow> error option \<times> world" where
  "acquireDynamoLock_put w databaseName instanceID =
     (case time_Now w of
        (now, w1) \<Rightarrow>
          (case PutItem w1 (newLockItem databaseName instanceID now) of
             (Inl e, w2) \<Rightarrow>
               (Some (Errorf ''failed to acquire lock (race condition): '' (AwsErr e)), w2)
           | (Inr _, w2) \<Rightarrow> (None, w2)))"

definition acquireDynamoLock :: "world \<Rightarrow> string \<Rightarrow> string \<Rightarrow> error option \<times> world" where
  "acquireDynamoLock w databaseName instanceID =
     (case GetItem w databaseName of
        (Inl e, w1) \<Rightarrow> (Some (Errorf ''failed to check existing lock: '' (AwsErr e)), w1)
      | (Inr None, w1) \<Rightarrow> acquireDynamoLock_put w1 databaseName instanceID
      | (Inr (Some existingLock), w1) \<Rightarrow>
          (case time_Now w1 of
             (t, w2) \<Rightarrow>
               if LeaseTimeout existingLock > Unix t
               then (Some (ErrorMsg (''database is locked by instance '' @ InstanceID existingLock
                        @ '' until '' @ Sprintf_d (LeaseTimeout existingLock))), w2)
               else acquireDynamoLock_put
                      (snd (releaseDynamoLock w2 databaseName (InstanceID existingLock)))
                      databaseName instanceID))"

section \<open>The snapshot store client\<close>

subsection \<open>The S3 client and the local files\<close>

definition GetObject :: "world \<Rightarrow> string \<Rightarrow> (aws_error + string) \<times> world" where
  "GetObject w k =
     (if faulted w then (Inl ServiceFault, emit (EvGetObject k) w)
      else
        (case bucket w k of
           None \<Rightarrow> (Inl NoSuchKey, emit (EvGetObject k) w)
         | Some body \<Rightarrow> (Inr body, emit (EvGetObject k) w)))"

definition PutObject :: "world \<Rightarrow> string \<Rightarrow> string \<Rightarrow> (aws_error + unit) \<times> world" where
  "PutObject w k body =
     (if faulted w then (Inl ServiceFault, emit (EvPutObject k) w)
      else (Inr (), emit (EvPutObject k) (w\<lparr>bucket := (bucket w)(k \<mapsto> body)\<rparr>)))"

text \<open>\<^verbatim>\<open>os.Create\<close> creates the file or truncates it.\<close>

definition os_Create :: "world \<Rightarrow> string \<Rightarrow> error option \<times> world" where
  "os_Create w path =
     (if faulted w then (Some (OsErr (''open '' @ path)), emit (EvCreate path) w)
      else (None, emit (EvCreate path) (w\<lparr>files := (files w)(path \<mapsto> [])\<rparr>)))"

text \<open>\<^verbatim>\<open>file.ReadFrom(body)\<close> on the file just created: the file gets the whole body.\<close>

definition ReadFrom :: "world \<Rightarrow> string \<Rightarrow> string \<Rightarrow> error option \<times> world" where
  "ReadFrom w path body =
     (if faulted w then (Some (OsErr (''write '' @ path)), emit (EvReadFrom path) w)
      else (None, emit (EvReadFrom path) (w\<lparr>files := (files w)(path \<mapsto> body)\<rparr>)))"

text \<open>\<^verbatim>\<open>os.Open\<close> fails on a missing file; the result stands for the content read from it.\<close>

definition os_Open :: "world \<Rightarrow> string \<Rightarrow> (error + string) \<times> world" where
  "os_Open w path =
     (if faulted w then (Inl (OsErr (''open '' @ path)), emit (EvOpen path) w)
      else
        (case files w path of
           None \<Rightarrow> (Inl (OsErr (''open '' @ path)), emit (EvOpen path) w)
         | Some content \<Rightarrow> (Inr content, emit (EvOpen path) w)))"

text \<open>\<^verbatim>\<open>os.Remove\<close>, whose error the handler drops.\<close>

definition os_Remove :: "world \<Rightarrow> string \<Rightarrow> world" where
  "os_Remove w path =
     (if faulted w then emit (EvRemove path) w
      else emit (EvRemove path) (w\<lparr>files := (files w)(path := None)\<rparr>))"

subsection \<open>Download and upload\<close>

definition downloadFromS3 :: "world \<Rightarrow> string \<Rightarrow> (error + string) \<times> world" where
  "downloadFromS3 w databaseName =
     (let localPath = ''/tmp/'' @ databaseName in
      case GetObject w databaseName of
        (Inl e, w1) \<Rightarrow> (Inl (Errorf ''failed to get object from S3: '' (AwsErr e)), w1)
      | (Inr body, w1) \<Rightarrow>
          (case os_Create w1 localPath of
             (Some e, w2) \<Rightarrow> (Inl (Errorf ''failed to create local file: '' e), w2)
           | (None, w2) \<Rightarrow>
               (case ReadFrom w2 localPath body of
                  (Some e, w3) \<Rightarrow>
                    (Inl (Errorf ''failed to copy S3 object to local file: '' e), w3)
                | (None, w3) \<Rightarrow> (Inr localPath, w3))))"

definition uploadToS3 :: "world \<Rightarrow> string \<Rightarrow> string \<Rightarrow> error option \<times> world" where
  "uploadToS3 w localPath databaseName =
     (case os_Open w localPath of
        (Inl e, w1) \<Rightarrow> (Some (Errorf ''failed to open local file: '' e), w1)
      | (Inr content, w1) \<Rightarrow>
          (case PutObject w1 databaseName content of
             (Inl e, w2) \<Rightarrow> (Some (Errorf ''failed to upload object to S3: '' (AwsErr e)), w2)
           | (Inr _, w2) \<Rightarrow> (None, w2)))"

section \<open>The statement executor\<close>

text \<open>
  The SQLite engine (\<^verbatim>\<open>database/sql\<close> with the \<^verbatim>\<open>go-sqlite3\<close> driver) is a parameter:
  what \<^verbatim>\<open>sql.Open\<close> reports for a path, and what \<^verbatim>\<open>db.Query\<close> and \<^verbatim>\<open>db.Exec\<close> do with
  the content of the database file and a statement. Each of the two returns the new
  content of the file and its outcome. A query fails at \<^verbatim>\<open>db.Query\<close>, at
  \<^verbatim>\<open>rows.Columns\<close> or at \<^verbatim>\<open>rows.Scan\<close>, or yields the column names and the rows in
  order; \<^verbatim>\<open>db.Exec\<close> fails or yields the number of rows affected. The type \<open>'v\<close> is
  the type of the values \<^verbatim>\<open>rows.Scan\<close> produces.
\<close>

datatype 'v query_result =
    QueryFailed string
  | ColumnsFailed string
  | ScanFailed string
  | Rows "string list" "'v list list"

record 'v engine =
  sql_Open :: "string \<Rightarrow> string option"
  db_Query :: "string option \<Rightarrow> string \<Rightarrow> string option \<times> 'v query_result"
  db_Exec :: "string option \<Rightarrow> string \<Rightarrow> string option \<times> (string + int)"

text \<open>
  \<open>Data\<close> is an \<^verbatim>\<open>interface{}\<close>: \<open>None\<close> is the nil interface, \<open>Some rows\<close> the slice
  of rows (each row a \<^verbatim>\<open>map[string]interface{}\<close>).
\<close>

record 'v SQLResult =
  Success :: bool
  Data :: "(string \<rightharpoonup> 'v) list option"
  Message :: string
  Error :: string


definition isSelect :: "string \<Rightarrow> bool" where
  "isSelect sqlStatement \<longleftrightarrow> length sqlStatement > 6 \<and> take 6 sqlStatement = ''SELECT''"

text \<open>The loop \<^verbatim>\<open>for i, col := range columns { row[col] = values[i] }\<close>.\<close>

definition make_row :: "string list \<Rightarrow> 'v list \<Rightarrow> (string \<rightharpoonup> 'v)" where
  "make_row columns vals = fold (\<lambda>(col, v) row. row(col \<mapsto> v)) (zip columns vals) Map.empty"

definition executeSQL ::
  "'v engine \<Rightarrow> world \<Rightarrow> string \<Rightarrow> string \<Rightarrow> (error + 'v SQLResult) \<times> world" where
  "executeSQL eng w dbPath sqlStatement =
     (case sql_Open eng dbPath of
        Some m \<Rightarrow> (Inl (Errorf ''failed to open database: '' (ErrorMsg m)), w)
      | None \<Rightarrow>
          if isSelect sqlStatement then
            (case db_Query eng (files w dbPath) sqlStatement of
               (f, r) \<Rightarrow>
                 (case r of
                    QueryFailed m \<Rightarrow>
                      (Inl (Errorf ''SELECT query failed: '' (ErrorMsg m)),
                       w\<lparr>files := (files w)(dbPath := f)\<rparr>)
                  | ColumnsFailed m \<Rightarrow>
                      (Inl (Errorf ''failed to get columns: '' (ErrorMsg m)),
                       w\<lparr>files := (files w)(dbPath := f)\<rparr>)
                  | ScanFailed m \<Rightarrow>
                      (Inl (Errorf ''failed to scan row: '' (ErrorMsg m)),
                       w\<lparr>files := (files w)(dbPath := f)\<rparr>)
                  | Rows columns rs \<Rightarrow>
                      (Inr \<lparr>Success = True,
                            Data = Some (map (make_row columns) rs),
                            Message = ''Query executed successfully, returned ''
                              @ Sprintf_d (int (length rs)) @ '' rows'',
                            Error = []\<rparr>,
                       w\<lparr>files := (files w)(dbPath := f)\<rparr>)))
          else
            (case db_Exec eng (files w dbPath) sqlStatement of
               (f, Inl m) \<Rightarrow>
                 (Inl (Errorf ''query execution failed: '' (ErrorMsg m)),
                  w\<lparr>files := (files w)(dbPath := f)\<rparr>)
             | (f, Inr rowsAffected) \<Rightarrow>
                 (Inr \<lparr>Success = True,
                       Data = None,
                       Message = ''Query executed successfully, ''
                         @ Sprintf_d rowsAffected @ '' rows affected'',
                       Error = []\<rparr>,
                  w\<lparr>files := (files w)(dbPath := f)\<rparr>)))"

subsection \<open>The effect category of a statement\<close>

text \<open>
  The spec speaks of statements that are read-only and statements that are mutating.
  The code does not compute this category (it has the prefix test \<open>isSelect\<close> only), so
  it is defined here from the leading keyword of the statement, read after any white
  space and in any letter case: \<^verbatim>\<open>SELECT\<close> is read-only; \<^verbatim>\<open>INSERT\<close>, \<^verbatim>\<open>UPDATE\<close>,
  \<^verbatim>\<open>DELETE\<close> (the three the comment of the code names), \<^verbatim>\<open>REPLACE\<close>, \<^verbatim>\<open>CREATE\<close>,
  \<^verbatim>\<open>DROP\<close> and \<^verbatim>\<open>ALTER\<close> are mutating; every other statement is left unclassified.
\<close>

datatype effect_category = ReadOnly | Mutating | Unclassified

definition is_space :: "char \<Rightarrow> bool" where
  "is_space c \<longleftrightarrow> c = CHR '' '' \<or> c = CHR 0x09 \<or> c = CHR 0x0A \<or> c = CHR 0x0D"

definition to_upper :: "char \<Rightarrow> char" where
  "to_upper c =
     (case map_of (zip ''abcdefghijklmnopqrstuvwxyz'' ''ABCDEFGHIJKLMNOPQRSTUVWXYZ'') c of
        Some u \<Rightarrow> u
      | None \<Rightarrow> c)"

definition has_keyword :: "string \<Rightarrow> string \<Rightarrow> bool" where
  "has_keyword k s \<longleftrightarrow> map to_upper (take (length k) (dropWhile is_space s)) = k"

definition effect_category :: "string \<Rightarrow> effect_category" where
  "effect_category s =
     (if has_keyword ''SELECT'' s then ReadOnly
      else if list_ex (\<lambda>k. has_keyword k s)
                [''INSERT'', ''UPDATE'', ''DELETE'', ''REPLACE'', ''CREATE'', ''DROP'', ''ALTER'']
      then Mutating
      else Unclassified)"

section \<open>The handler\<close>

text \<open>
  \<open>Body\<close> of a response is the \<open>SQLResult\<close> that \<^verbatim>\<open>json.Marshal\<close> encodes into the
  body text. The request is the outcome of \<^verbatim>\<open>json.Unmarshal\<close> on the body of the
  API Gateway request: \<open>None\<close> when it returns an error, the decoded \<open>APIRequest\<close>
  otherwise (a missing field decodes to the empty string).
\<close>

record APIRequest =
  SQLStatement :: string
  RequestDatabaseName :: string

record 'v APIGatewayProxyResponse =
  StatusCode :: int
  Headers :: "(string \<times> string) list"
  Body :: "'v SQLResult"

definition createSuccessResponse :: "'v SQLResult \<Rightarrow> 'v APIGatewayProxyResponse" where
  "createSuccessResponse d =
     \<lparr>StatusCode = 200, Headers = [(''Content-Type'', ''application/json'')], Body = d\<rparr>"

definition createErrorResponse :: "int \<Rightarrow> string \<Rightarrow> 'v APIGatewayProxyResponse" where
  "createErrorResponse statusCode message =
     \<lparr>StatusCode = statusCode,
      Headers = [(''Content-Type'', ''application/json'')],
      Body = \<lparr>Success = False, Data = None, Message = [], Error = message\<rparr>\<rparr>"

text \<open>
  The handler in three layers, one per \<^verbatim>\<open>defer\<close>: \<open>Handler_downloaded\<close> is steps 3 to 5
  (execute, upload, respond); \<open>Handler_locked\<close> is step 2 followed, once the download
  has succeeded, by the rest and then the deferred \<^verbatim>\<open>os.Remove\<close>; \<open>Handler\<close> is the
  validation and step 1 followed, once the lock is acquired, by the rest and then the
  deferred \<^verbatim>\<open>releaseDynamoLock\<close>. The deferred calls run after the response is fixed,
  last registered first.
\<close>

definition Handler_downloaded ::
  "'v engine \<Rightarrow> world \<Rightarrow> string \<Rightarrow> string \<Rightarrow> string \<Rightarrow> 'v APIGatewayProxyResponse \<times> world" where
  "Handler_downloaded eng w localDBPath databaseName sqlStatement =
     (case executeSQL eng w localDBPath sqlStatement of
        (Inl err, w1) \<Rightarrow>
          (createErrorResponse 500 (''SQL execution failed: '' @ Sprintf_v err), w1)
      | (Inr result, w1) \<Rightarrow>
          (case uploadToS3 w1 localDBPath databaseName of
             (Some err, w2) \<Rightarrow>
               (createErrorResponse 500 (''Failed to upload database: '' @ Sprintf_v err), w2)
           | (None, w2) \<Rightarrow> (createSuccessResponse result, w2)))"

definition Handler_locked ::
  "'v engine \<Rightarrow> world \<Rightarrow> string \<Rightarrow> string \<Rightarrow> 'v APIGatewayProxyResponse \<times> world" where
  "Handler_locked eng w databaseName sqlStatement =
     (case downloadFromS3 w databaseName of
        (Inl err, w1) \<Rightarrow>
          (createErrorResponse 500 (''Failed to download database: '' @ Sprintf_v err), w1)
      | (Inr localDBPath, w1) \<Rightarrow>
          (case Handler_downloaded eng w1 localDBPath databaseName sqlStatement of
             (resp, w2) \<Rightarrow> (resp, os_Remove w2 localDBPath)))"

definition instanceID_at :: "Time \<Rightarrow> string" where
  "instanceID_at t = ''lambda-'' @ Sprintf_d (UnixNano t)"

definition Handler ::
  "'v engine \<Rightarrow> world \<Rightarrow> APIRequest option \<Rightarrow> 'v APIGatewayProxyResponse \<times> world" where
  "Handler eng w request =
     (case request of
        None \<Rightarrow> (createErrorResponse 400 ''Invalid JSON in request body'', w)
      | Some apiReq \<Rightarrow>
          (let databaseName =
                 (if RequestDatabaseName apiReq = [] then dbFileName
                  else RequestDatabaseName apiReq)
           in
             if SQLStatement apiReq = []
             then (createErrorResponse 400 ''SQL statement is required'', w)
             else
               (case time_Now w of
                  (t, w1) \<Rightarrow>
                    (case acquireDynamoLock w1 databaseName (instanceID_at t) of
                       (Some err, w2) \<Rightarrow>
                         (createErrorResponse 409
                            (''Failed to acquire lock: '' @ Sprintf_v err), w2)
                     | (None, w2) \<Rightarrow>
                         (case Handler_locked eng w2 databaseName (SQLStatement apiReq) of
                            (resp, w3) \<Rightarrow>
                              (resp,
                               snd (releaseDynamoLock w3 databaseName (instanceID_at t))))))))"

subsection \<open>The stages of one invocation\<close>

text \<open>
  Names for what each step of \<open>Handler\<close> returns on a decoded request \<open>r\<close> in the
  world \<open>w\<close>, each step running in the world the step before it has left: the
  database name used, the holder id generated, and the results of steps 1 to 4.
\<close>

definition request_db :: "APIRequest \<Rightarrow> string" where
  "request_db r = (if RequestDatabaseName r = [] then dbFileName else RequestDatabaseName r)"

definition request_holder :: "world \<Rightarrow> string" where
  "request_holder w = instanceID_at (clock w (ticks w))"

definition stage_acquire :: "world \<Rightarrow> APIRequest \<Rightarrow> error option \<times> world" where
  "stage_acquire w r = acquireDynamoLock (snd (time_Now w)) (request_db r) (request_holder w)"

definition stage_download :: "world \<Rightarrow> APIRequest \<Rightarrow> (error + string) \<times> world" where
  "stage_download w r = downloadFromS3 (snd (stage_acquire w r)) (request_db r)"

definition stage_execute ::
  "'v engine \<Rightarrow> world \<Rightarrow> APIRequest \<Rightarrow> (error + 'v SQLResult) \<times> world" where
  "stage_execute eng w r =
     executeSQL eng (snd (stage_download w r)) (''/tmp/'' @ request_db r) (SQLStatement r)"

definition stage_upload :: "'v engine \<Rightarrow> world \<Rightarrow> APIRequest \<Rightarrow> error option \<times> world" where
  "stage_upload eng w r =
     uploadToS3 (snd (stage_execute eng w r)) (''/tmp/'' @ request_db r) (request_db r)"

section \<open>Concurrent acquisitions\<close>

text \<open>
  Several invocations run \<^verbatim>\<open>acquireDynamoLock\<close> for one database name against the same
  table, none of them hitting a fault. Each request to the table is atomic; between two
  requests of one invocation the others may run. An invocation is at one of four
  points: before its \<^verbatim>\<open>GetItem\<close>; before the \<^verbatim>\<open>DeleteItem\<close> that removes the expired
  item it has read; before its \<^verbatim>\<open>PutItem\<close>; or returned, with its error. A step runs
  the next request of one invocation, with the clock reading \<open>t\<close> that the code takes
  next to that request (\<^verbatim>\<open>currentTime\<close> after \<^verbatim>\<open>GetItem\<close>, \<^verbatim>\<open>now\<close> before \<^verbatim>\<open>PutItem\<close>).
\<close>

datatype pc = AtGetItem | AtDeleteItem LockItem | AtPutItem | Returned "error option"

fun acquire_step :: "string \<Rightarrow> string \<Rightarrow> Time \<Rightarrow> lock_table \<Rightarrow> pc \<Rightarrow> lock_table \<times> pc" where
  "acquire_step databaseName instanceID t tbl AtGetItem =
     (case table_GetItem tbl databaseName of
        None \<Rightarrow> (tbl, AtPutItem)
      | Some existingLock \<Rightarrow>
          if LeaseTimeout existingLock > Unix t
          then (tbl, Returned (Some (ErrorMsg (''database is locked by instance ''
                  @ InstanceID existingLock @ '' until ''
                  @ Sprintf_d (LeaseTimeout existingLock)))))
          else (tbl, AtDeleteItem existingLock))"
| "acquire_step databaseName instanceID t tbl (AtDeleteItem existingLock) =
     (case table_DeleteItem tbl databaseName (InstanceID existingLock) of
        Inl e \<Rightarrow> (tbl, AtPutItem)
      | Inr tbl' \<Rightarrow> (tbl', AtPutItem))"
| "acquire_step databaseName instanceID t tbl AtPutItem =
     (case table_PutItem tbl (newLockItem databaseName instanceID t) of
        Inl e \<Rightarrow>
          (tbl, Returned (Some (Errorf ''failed to acquire lock (race condition): '' (AwsErr e))))
      | Inr tbl' \<Rightarrow> (tbl', Returned None))"
| "acquire_step databaseName instanceID t tbl (Returned r) = (tbl, Returned r)"

text \<open>
  A schedule is the list of steps taken: which invocation moves, and its clock reading.
  Invocation \<open>i\<close> has the holder id \<open>hs ! i\<close>; all start before their \<^verbatim>\<open>GetItem\<close>.
\<close>

definition sched_step ::
  "string \<Rightarrow> string list \<Rightarrow> nat \<times> Time \<Rightarrow> lock_table \<times> pc list \<Rightarrow> lock_table \<times> pc list" where
  "sched_step databaseName hs e cfg =
     (case e of
        (i, t) \<Rightarrow>
          (case cfg of
             (tbl, pcs) \<Rightarrow>
               if i < length pcs \<and> i < length hs
               then (case acquire_step databaseName (hs ! i) t tbl (pcs ! i) of
                       (tbl', p) \<Rightarrow> (tbl', pcs[i := p]))
               else cfg))"

definition run_acquires ::
  "string \<Rightarrow> string list \<Rightarrow> (nat \<times> Time) list \<Rightarrow> lock_table \<Rightarrow> lock_table \<times> pc list" where
  "run_acquires databaseName hs sched tbl =
     fold (sched_step databaseName hs) sched (tbl, replicate (length hs) AtGetItem)"

text \<open>
  For the proof about runs: the invocations that have returned without error, and the
  invariant of a run that starts from a table whose item for the database is \<open>x0\<close> and
  whose clock readings are in \<open>T\<close>. Only an item read from the initial table is ever
  up for deletion; while nobody has won, the table holds the initial item or none, none
  as soon as some invocation is about to write, and nobody has been refused; a winner
  is the only one, and the table holds its item, valid at every reading in \<open>T\<close>.
\<close>

definition winners :: "pc list \<Rightarrow> nat set" where
  "winners pcs = {i. i < length pcs \<and> pcs ! i = Returned None}"

definition acquire_inv ::
  "string \<Rightarrow> string list \<Rightarrow> LockItem option \<Rightarrow> Time set \<Rightarrow> lock_table \<times> pc list \<Rightarrow> bool" where
  "acquire_inv db hs x0 T cfg =
     (case cfg of
        (tbl, pcs) \<Rightarrow>
          length pcs = length hs
          \<and> (\<forall>x. AtDeleteItem x \<in> set pcs \<longrightarrow> x0 = Some x)
          \<and> (winners pcs = {} \<longrightarrow>
                (tbl db = None \<or> tbl db = x0)
                \<and> (AtPutItem \<in> set pcs \<longrightarrow> tbl db = None)
                \<and> (\<forall>e. Returned (Some e) \<notin> set pcs))
          \<and> (\<forall>i\<in>winners pcs.
                winners pcs = {i}
                \<and> (\<exists>r. tbl db = Some r \<and> InstanceID r = hs ! i
                       \<and> (\<forall>t\<in>T. Unix t < LeaseTimeout r))))"

section \<open>Example inputs\<close>

text \<open>
  Concrete inputs for the evaluations below: a lock item for the default database with
  a given holder and expiry, and a world whose clock reads 2000 seconds after the epoch
  (one nanosecond later at each reading), with no local file and an empty trace.
\<close>

definition example_item :: "string \<Rightarrow> int \<Rightarrow> LockItem" where
  "example_item h expiry =
     \<lparr>DatabaseName = ''database.db'', InstanceID = h, LeaseTimeout = expiry,
      CreatedAt = expiry - 300\<rparr>"

definition example_world :: "lock_table \<Rightarrow> (string \<rightharpoonup> string) \<Rightarrow> (nat \<Rightarrow> bool) \<Rightarrow> world" where
  "example_world tbl bkt flt =
     \<lparr>lock_items = tbl, bucket = bkt, files = Map.empty,
      clock = (\<lambda>n. 2000 * Second + int n), ticks = 0, fault = flt, trace = []\<rparr>"

text \<open>
  An engine for the evaluations: every query yields two rows of two columns and leaves
  the file as it is; every other statement fails when it is the text
  \<^verbatim>\<open>INVALID SQL STATEMENT\<close> and otherwise changes the file and reports three rows
  affected.
\<close>

definition example_engine :: "int engine" where
  "example_engine =
     \<lparr>sql_Open = (\<lambda>p. None),
      db_Query = (\<lambda>f s. (f, Rows [''id'', ''total''] [[1, 10], [2, 20]])),
      db_Exec = (\<lambda>f s.
        if s = ''INVALID SQL STATEMENT'' then (f, Inl ''syntax error'')
        else (map_option (\<lambda>c. c @ ''+'') f, Inr 3))\<rparr>"

section \<open>Basic facts\<close>

subsection \<open>Time\<close>

lemma le_div_iff_mult_le_int:
  fixes L t c :: int
  assumes c: "0 < c"
  shows "L \<le> t div c \<longleftrightarrow> L * c \<le> t"
proof
  assume "L \<le> t div c"
  then have "L * c \<le> (t div c) * c"
    using c by (simp add: mult_right_mono)
  also have "(t div c) * c = t - t mod c"
    by (simp add: minus_mod_eq_div_mult)
  also have "\<dots> \<le> t"
    using c by simp
  finally show "L * c \<le> t" .
next
  assume "L * c \<le> t"
  then have "(L * c) div c \<le> t div c"
    using c by (rule zdiv_mono1)
  then show "L \<le> t div c"
    using c by simp
qed

lemma Unix_Add_lease: "Unix (Add now (lockTimeoutMinutes * Minute)) = Unix now + 300"
proof -
  have "(now + 300 * 1000000000) div 1000000000 = now div 1000000000 + (300::int)"
    by simp
  then show ?thesis
    by (simp add: Unix_def Add_def lockTimeoutMinutes_def Minute_def Second_def)
qed

text \<open>
  The expiry check of the code compares whole seconds. It says the same as comparing
  the instant of expiry with the clock reading in nanoseconds.
\<close>

lemma Unix_le_iff: "L \<le> Unix t \<longleftrightarrow> L * Second \<le> t"
  unfolding Unix_def Second_def by (rule le_div_iff_mult_le_int) simp

lemma newLockItem_simps [simp]:
  "DatabaseName (newLockItem d h now) = d"
  "InstanceID (newLockItem d h now) = h"
  "CreatedAt (newLockItem d h now) = Unix now"
  "LeaseTimeout (newLockItem d h now) = Unix now + 300"
  by (simp_all add: newLockItem_def Unix_Add_lease)

subsection \<open>The world\<close>

lemma emit_simps [simp]:
  "lock_items (emit e w) = lock_items w"
  "bucket (emit e w) = bucket w"
  "files (emit e w) = files w"
  "clock (emit e w) = clock w"
  "ticks (emit e w) = ticks w"
  "fault (emit e w) = fault w"
  "trace (emit e w) = trace w @ [e]"
  by (simp_all add: emit_def)

lemma time_Now_simps [simp]:
  "fst (time_Now w) = clock w (ticks w)"
  "lock_items (snd (time_Now w)) = lock_items w"
  "bucket (snd (time_Now w)) = bucket w"
  "files (snd (time_Now w)) = files w"
  "clock (snd (time_Now w)) = clock w"
  "ticks (snd (time_Now w)) = Suc (ticks w)"
  "fault (snd (time_Now w)) = fault w"
  "trace (snd (time_Now w)) = trace w"
  by (simp_all add: time_Now_def)

lemma no_fault_faulted: "\<forall>n. \<not> fault w n \<Longrightarrow> \<not> faulted w"
  by (simp add: faulted_def)

lemma example_world_simps [simp]:
  "lock_items (example_world tbl bkt flt) = tbl"
  "bucket (example_world tbl bkt flt) = bkt"
  "files (example_world tbl bkt flt) = Map.empty"
  "clock (example_world tbl bkt flt) n = 2000 * Second + int n"
  "ticks (example_world tbl bkt flt) = 0"
  "fault (example_world tbl bkt flt) = flt"
  "trace (example_world tbl bkt flt) = []"
  by (simp_all add: example_world_def)

lemma example_item_simps [simp]:
  "DatabaseName (example_item h e) = ''database.db''"
  "InstanceID (example_item h e) = h"
  "LeaseTimeout (example_item h e) = e"
  "CreatedAt (example_item h e) = e - 300"
  by (simp_all add: example_item_def)

section \<open>Properties of release\<close>

lemma release_frame [simp]:
  "bucket (snd (releaseDynamoLock w db h)) = bucket w"
  "files (snd (releaseDynamoLock w db h)) = files w"
  "clock (snd (releaseDynamoLock w db h)) = clock w"
  "ticks (snd (releaseDynamoLock w db h)) = ticks w"
  "fault (snd (releaseDynamoLock w db h)) = fault w"
  "trace (snd (releaseDynamoLock w db h)) = trace w @ [EvDeleteItem db h]"
  by (simp_all add: releaseDynamoLock_def DeleteItem_def split: sum.splits)

lemma release_lock_items:
  "lock_items (snd (releaseDynamoLock w db h)) =
     (if \<not> faulted w \<and> (\<exists>x. lock_items w db = Some x \<and> InstanceID x = h)
      then (lock_items w)(db := None) else lock_items w)"
  by (auto simp: releaseDynamoLock_def DeleteItem_def table_DeleteItem_def
           split: sum.splits option.splits if_splits)

lemma release_result:
  "fst (releaseDynamoLock w db h) =
     (if faulted w then Some (AwsErr ServiceFault)
      else if (\<exists>x. lock_items w db = Some x \<and> InstanceID x = h) then None
      else Some (AwsErr ConditionalCheckFailedException))"
  by (auto simp: releaseDynamoLock_def DeleteItem_def table_DeleteItem_def
           split: sum.splits option.splits if_splits)

text \<open>
  Claim C3. Release is fenced by the holder id. For every world, database name \<open>db\<close>
  and holder id \<open>h\<close>: if \<open>releaseDynamoLock\<close> changes the lock table at all, then the
  item of \<open>db\<close> was held by \<open>h\<close>, that item is the one deleted, and the call returns no
  error; if the item of \<open>db\<close> is held by another holder, the table is left exactly as
  it was and the call returns an error, which is the failed condition of the store
  (the spec's NotHolder) unless the request itself failed; and if the item is held by
  \<open>h\<close> and the request reaches the store, the item is deleted.
\<close>

theorem release_is_fenced:
  "(lock_items (snd (releaseDynamoLock w db h)) \<noteq> lock_items w \<longrightarrow>
      (\<exists>r. lock_items w db = Some r \<and> InstanceID r = h)
      \<and> lock_items (snd (releaseDynamoLock w db h)) = (lock_items w)(db := None)
      \<and> fst (releaseDynamoLock w db h) = None)
   \<and> (\<forall>r. lock_items w db = Some r \<and> InstanceID r \<noteq> h \<longrightarrow>
         lock_items (snd (releaseDynamoLock w db h)) = lock_items w
         \<and> (\<exists>e. fst (releaseDynamoLock w db h) = Some (AwsErr e)
                \<and> (\<not> faulted w \<longrightarrow> e = ConditionalCheckFailedException)))
   \<and> (\<forall>r. lock_items w db = Some r \<and> InstanceID r = h \<and> \<not> faulted w \<longrightarrow>
         lock_items (snd (releaseDynamoLock w db h)) = (lock_items w)(db := None)
         \<and> fst (releaseDynamoLock w db h) = None)"
  by (auto simp: release_lock_items release_result)

text \<open>
  The lease of the default database is held by \<open>lambda-2\<close>. A release by \<open>lambda-1\<close>
  fails on the condition and leaves the table as it was; a release by \<open>lambda-2\<close>
  deletes the item.
\<close>

theorem release_is_fenced_witness:
  "lock_items (example_world [''database.db'' \<mapsto> example_item ''lambda-2'' 2300] Map.empty (\<lambda>n. False))
       ''database.db'' = Some (example_item ''lambda-2'' 2300)
   \<and> InstanceID (example_item ''lambda-2'' 2300) \<noteq> ''lambda-1''
   \<and> fst (releaseDynamoLock
        (example_world [''database.db'' \<mapsto> example_item ''lambda-2'' 2300] Map.empty (\<lambda>n. False))
        ''database.db'' ''lambda-1'') = Some (AwsErr ConditionalCheckFailedException)
   \<and> lock_items (snd (releaseDynamoLock
        (example_world [''database.db'' \<mapsto> example_item ''lambda-2'' 2300] Map.empty (\<lambda>n. False))
        ''database.db'' ''lambda-1'')) = [''database.db'' \<mapsto> example_item ''lambda-2'' 2300]
   \<and> fst (releaseDynamoLock
        (example_world [''database.db'' \<mapsto> example_item ''lambda-2'' 2300] Map.empty (\<lambda>n. False))
        ''database.db'' ''lambda-2'') = None
   \<and> lock_items (snd (releaseDynamoLock
        (example_world [''database.db'' \<mapsto> example_item ''lambda-2'' 2300] Map.empty (\<lambda>n. False))
        ''database.db'' ''lambda-2'')) ''database.db'' = None"
  using release_is_fenced
      [of "example_world [''database.db'' \<mapsto> example_item ''lambda-2'' 2300] Map.empty (\<lambda>n. False)"
          "''database.db''" "''lambda-1''"]
    release_is_fenced
      [of "example_world [''database.db'' \<mapsto> example_item ''lambda-2'' 2300] Map.empty (\<lambda>n. False)"
          "''database.db''" "''lambda-2''"]
  by (auto simp: faulted_def)

section \<open>Properties of acquire\<close>

lemma GetItem_eq:
  "GetItem w k =
     (if faulted w then Inl ServiceFault else Inr (lock_items w k), emit (EvGetItem k) w)"
  by (simp add: GetItem_def table_GetItem_def)

lemma acquire_put_frame [simp]:
  "bucket (snd (acquireDynamoLock_put w db h)) = bucket w"
  "files (snd (acquireDynamoLock_put w db h)) = files w"
  "clock (snd (acquireDynamoLock_put w db h)) = clock w"
  "ticks (snd (acquireDynamoLock_put w db h)) = Suc (ticks w)"
  "fault (snd (acquireDynamoLock_put w db h)) = fault w"
  "trace (snd (acquireDynamoLock_put w db h)) =
     trace w @ [EvPutItem (newLockItem db h (clock w (ticks w)))]"
  by (simp_all add: acquireDynamoLock_put_def time_Now_def PutItem_def faulted_def emit_def
       split: sum.splits)

lemma acquire_put_lock_items:
  "lock_items (snd (acquireDynamoLock_put w db h)) =
     (if \<not> faulted w \<and> lock_items w db = None
      then (lock_items w)(db \<mapsto> newLockItem db h (clock w (ticks w)))
      else lock_items w)"
  by (auto simp: acquireDynamoLock_put_def time_Now_def PutItem_def table_PutItem_def
        faulted_def emit_def split: sum.splits option.splits)

lemma acquire_put_result:
  "fst (acquireDynamoLock_put w db h) =
     (if faulted w
      then Some (Errorf ''failed to acquire lock (race condition): '' (AwsErr ServiceFault))
      else if lock_items w db = None then None
      else Some (Errorf ''failed to acquire lock (race condition): ''
                   (AwsErr ConditionalCheckFailedException)))"
  by (auto simp: acquireDynamoLock_put_def time_Now_def PutItem_def table_PutItem_def
        faulted_def emit_def split: sum.splits option.splits)

lemma acquire_frame [simp]:
  "bucket (snd (acquireDynamoLock w db h)) = bucket w"
  "files (snd (acquireDynamoLock w db h)) = files w"
  "clock (snd (acquireDynamoLock w db h)) = clock w"
  "fault (snd (acquireDynamoLock w db h)) = fault w"
  by (simp_all add: acquireDynamoLock_def GetItem_eq time_Now_def split: option.splits)

lemma acquire_absent:
  assumes "\<not> faulted w" "lock_items w db = None"
  shows "acquireDynamoLock w db h = acquireDynamoLock_put (emit (EvGetItem db) w) db h"
  using assms by (simp add: acquireDynamoLock_def GetItem_eq)

lemma acquire_valid:
  assumes "\<not> faulted w" "lock_items w db = Some x" "LeaseTimeout x > Unix (clock w (ticks w))"
  shows "fst (acquireDynamoLock w db h) =
           Some (ErrorMsg (''database is locked by instance '' @ InstanceID x
                   @ '' until '' @ Sprintf_d (LeaseTimeout x)))"
    and "lock_items (snd (acquireDynamoLock w db h)) = lock_items w"
  using assms by (simp_all add: acquireDynamoLock_def GetItem_eq time_Now_def)

lemma acquire_expired:
  assumes "\<not> faulted w" "lock_items w db = Some x" "\<not> LeaseTimeout x > Unix (clock w (ticks w))"
  shows "acquireDynamoLock w db h =
           acquireDynamoLock_put
             (snd (releaseDynamoLock (snd (time_Now (emit (EvGetItem db) w))) db (InstanceID x)))
             db h"
  using assms by (simp add: acquireDynamoLock_def GetItem_eq time_Now_def)

lemma acquire_changes:
  assumes "lock_items (snd (acquireDynamoLock w db h)) k = Some r"
    and "lock_items w k \<noteq> Some r"
  shows "k = db \<and> (\<exists>now. r = newLockItem db h now)"
  using assms
  by (auto simp: acquireDynamoLock_def GetItem_eq time_Now_def acquire_put_lock_items
        release_lock_items split: option.splits if_splits)

lemma acquire_success_item:
  assumes "fst (acquireDynamoLock w db h) = None"
  shows "\<exists>now. lock_items (snd (acquireDynamoLock w db h)) db = Some (newLockItem db h now)"
  using assms
  by (auto simp: acquireDynamoLock_def GetItem_eq time_Now_def acquire_put_lock_items
        acquire_put_result split: option.splits if_splits)

text \<open>
  Claim C2. For every world in which no request fails for a reason of the
  infrastructure, every database name and every holder id, \<open>acquireDynamoLock\<close>
  returns without error if and only if either the table has no item for the name, or
  the item's expiry is in the past: the instant \<open>LeaseTimeout\<close> seconds after the epoch
  is not later than the reading of the clock that the code takes for the check (an
  expiry at that very instant counts as past, one after it as in the future). The
  holder id of the caller plays no part in the decision. On success the item of the
  name is held by the caller; on failure the table is as it was.
\<close>

theorem acquire_succeeds_iff_absent_or_expired:
  assumes nf: "\<forall>n. \<not> fault w n"
  shows "(fst (acquireDynamoLock w db h) = None \<longleftrightarrow>
            lock_items w db = None
            \<or> (\<exists>x. lock_items w db = Some x \<and> LeaseTimeout x * Second \<le> clock w (ticks w)))
         \<and> (fst (acquireDynamoLock w db h) = None \<longrightarrow>
              (\<exists>r. lock_items (snd (acquireDynamoLock w db h)) db = Some r \<and> InstanceID r = h))
         \<and> (fst (acquireDynamoLock w db h) \<noteq> None \<longrightarrow>
              lock_items (snd (acquireDynamoLock w db h)) = lock_items w)"
proof (cases "lock_items w db")
  case None
  have "\<not> faulted w" using nf by (rule no_fault_faulted)
  then have eq: "acquireDynamoLock w db h = acquireDynamoLock_put (emit (EvGetItem db) w) db h"
    using None by (rule acquire_absent)
  have "\<not> faulted (emit (EvGetItem db) w)"
    using nf by (simp add: faulted_def)
  then show ?thesis
    using None by (simp add: eq acquire_put_result acquire_put_lock_items)
next
  case (Some x)
  have f0: "\<not> faulted w" using nf by (rule no_fault_faulted)
  show ?thesis
  proof (cases "LeaseTimeout x > Unix (clock w (ticks w))")
    case True
    then have "\<not> LeaseTimeout x * Second \<le> clock w (ticks w)"
      by (simp add: Unix_le_iff [symmetric])
    then show ?thesis
      using Some acquire_valid [OF f0 Some True] by simp
  next
    case False
    then have past: "LeaseTimeout x * Second \<le> clock w (ticks w)"
      by (simp add: Unix_le_iff [symmetric])
    let ?w1 = "snd (time_Now (emit (EvGetItem db) w))"
    let ?w2 = "snd (releaseDynamoLock ?w1 db (InstanceID x))"
    have eq: "acquireDynamoLock w db h = acquireDynamoLock_put ?w2 db h"
      using f0 Some False by (rule acquire_expired)
    have f1: "\<not> faulted ?w1" using nf by (simp add: faulted_def)
    have f2: "\<not> faulted ?w2" using nf by (simp add: faulted_def)
    have gone: "lock_items ?w2 db = None"
      using f1 Some by (simp add: release_lock_items)
    show ?thesis
      using Some past f2 gone by (simp add: eq acquire_put_result acquire_put_lock_items)
  qed
qed

text \<open>
  At the clock reading of 2000 seconds: a lease of \<open>lambda-1\<close> that expired at 1000 is
  acquired by \<open>lambda-2\<close>; one that expires at 2001 is not; an absent one is acquired.
\<close>

theorem acquire_succeeds_iff_absent_or_expired_witness:
  "(\<forall>n. \<not> fault (example_world [''database.db'' \<mapsto> example_item ''lambda-1'' 1000] Map.empty
                   (\<lambda>n. False)) n)
   \<and> fst (acquireDynamoLock
            (example_world [''database.db'' \<mapsto> example_item ''lambda-1'' 1000] Map.empty (\<lambda>n. False))
            ''database.db'' ''lambda-2'') = None
   \<and> fst (acquireDynamoLock
            (example_world [''database.db'' \<mapsto> example_item ''lambda-1'' 2001] Map.empty (\<lambda>n. False))
            ''database.db'' ''lambda-2'') \<noteq> None
   \<and> fst (acquireDynamoLock (example_world Map.empty Map.empty (\<lambda>n. False))
            ''database.db'' ''lambda-2'') = None"
  using acquire_succeeds_iff_absent_or_expired
      [of "example_world [''database.db'' \<mapsto> example_item ''lambda-1'' 1000] Map.empty (\<lambda>n. False)"
          "''database.db''" "''lambda-2''"]
    acquire_succeeds_iff_absent_or_expired
      [of "example_world [''database.db'' \<mapsto> example_item ''lambda-1'' 2001] Map.empty (\<lambda>n. False)"
          "''database.db''" "''lambda-2''"]
    acquire_succeeds_iff_absent_or_expired
      [of "example_world Map.empty Map.empty (\<lambda>n. False)" "''database.db''" "''lambda-2''"]
  by (simp add: Second_def)

text \<open>
  Claim C10. Every item that \<open>acquireDynamoLock\<close> writes has
  \<open>LeaseTimeout = CreatedAt + 300\<close>, the five minutes of the lease in seconds, and so
  expires strictly after its creation. This holds of the item of the caller after a
  successful acquire, and of every item that is in the table after the call and was
  not there before it, in every world (with or without faults).
\<close>

theorem acquired_lease_expires_300_after_creation:
  "(fst (acquireDynamoLock w db h) = None \<longrightarrow>
      (\<exists>r. lock_items (snd (acquireDynamoLock w db h)) db = Some r
           \<and> DatabaseName r = db \<and> InstanceID r = h
           \<and> LeaseTimeout r = CreatedAt r + 300 \<and> CreatedAt r < LeaseTimeout r))
   \<and> (\<forall>k r. lock_items (snd (acquireDynamoLock w db h)) k = Some r \<and> lock_items w k \<noteq> Some r \<longrightarrow>
         LeaseTimeout r = CreatedAt r + 300 \<and> CreatedAt r < LeaseTimeout r)"
proof (intro conjI impI allI)
  assume "fst (acquireDynamoLock w db h) = None"
  then obtain now where
    "lock_items (snd (acquireDynamoLock w db h)) db = Some (newLockItem db h now)"
    using acquire_success_item by blast
  then show "\<exists>r. lock_items (snd (acquireDynamoLock w db h)) db = Some r
           \<and> DatabaseName r = db \<and> InstanceID r = h
           \<and> LeaseTimeout r = CreatedAt r + 300 \<and> CreatedAt r < LeaseTimeout r"
    by simp
next
  fix k r
  assume "lock_items (snd (acquireDynamoLock w db h)) k = Some r \<and> lock_items w k \<noteq> Some r"
  then obtain now where r: "r = newLockItem db h now"
    using acquire_changes by blast
  show "LeaseTimeout r = CreatedAt r + 300" by (simp add: r)
  show "CreatedAt r < LeaseTimeout r" by (simp add: r)
qed

text \<open>
  An acquire on the empty table at the clock reading of 2000 seconds writes an item
  created at 2000 that expires at 2300.
\<close>

theorem acquired_lease_expires_300_after_creation_witness:
  "fst (acquireDynamoLock (example_world Map.empty Map.empty (\<lambda>n. False))
          ''database.db'' ''lambda-7'') = None
   \<and> (\<exists>r. lock_items (snd (acquireDynamoLock (example_world Map.empty Map.empty (\<lambda>n. False))
                 ''database.db'' ''lambda-7'')) ''database.db'' = Some r
          \<and> InstanceID r = ''lambda-7'' \<and> CreatedAt r = 2000 \<and> LeaseTimeout r = 2300)"
proof -
  let ?w = "example_world Map.empty Map.empty (\<lambda>n. False)"
  have ok: "fst (acquireDynamoLock ?w ''database.db'' ''lambda-7'') = None"
    by (simp add: acquireDynamoLock_def GetItem_eq faulted_def acquire_put_result)
  have cr: "\<forall>r. lock_items (snd (acquireDynamoLock ?w ''database.db'' ''lambda-7'')) ''database.db'' = Some r
      \<longrightarrow> CreatedAt r = 2000"
    by (simp add: acquireDynamoLock_def GetItem_eq faulted_def acquire_put_lock_items
          Unix_def Second_def)
  show ?thesis
    using ok cr acquired_lease_expires_300_after_creation
      [of ?w "''database.db''" "''lambda-7''"]
    by auto
qed

section \<open>Properties of the handler\<close>

subsection \<open>What each step leaves unchanged\<close>

lemma acquire_trace:
  "\<exists>evs. trace (snd (acquireDynamoLock w db h)) = trace w @ evs
      \<and> (\<forall>k. EvPutObject k \<notin> set evs)"
  by (auto simp: acquireDynamoLock_def GetItem_eq time_Now_def split: option.splits)

lemma download_frame [simp]:
  "lock_items (snd (downloadFromS3 w db)) = lock_items w"
  "bucket (snd (downloadFromS3 w db)) = bucket w"
  "clock (snd (downloadFromS3 w db)) = clock w"
  "ticks (snd (downloadFromS3 w db)) = ticks w"
  "fault (snd (downloadFromS3 w db)) = fault w"
  by (simp_all add: downloadFromS3_def GetObject_def os_Create_def ReadFrom_def Let_def
        split: option.splits)

lemma download_trace:
  "\<exists>evs. trace (snd (downloadFromS3 w db)) = trace w @ evs \<and> (\<forall>k. EvPutObject k \<notin> set evs)"
  by (auto simp: downloadFromS3_def GetObject_def os_Create_def ReadFrom_def Let_def
        split: option.splits)

lemma download_absent:
  assumes "\<not> faulted w" "bucket w db = None"
  shows "downloadFromS3 w db =
           (Inl (Errorf ''failed to get object from S3: '' (AwsErr NoSuchKey)),
            emit (EvGetObject db) w)"
  using assms by (simp add: downloadFromS3_def GetObject_def)

lemma download_ok:
  assumes "downloadFromS3 w db = (Inr path, w')"
  shows "path = ''/tmp/'' @ db" "\<exists>body. bucket w db = Some body \<and> files w' = (files w)(path \<mapsto> body)"
    "trace w' = trace w @ [EvGetObject db, EvCreate path, EvReadFrom path]"
  using assms
  by (auto simp: downloadFromS3_def GetObject_def os_Create_def ReadFrom_def Let_def
        split: option.splits if_splits)

lemma executeSQL_frame [simp]:
  "lock_items (snd (executeSQL eng w p s)) = lock_items w"
  "bucket (snd (executeSQL eng w p s)) = bucket w"
  "clock (snd (executeSQL eng w p s)) = clock w"
  "ticks (snd (executeSQL eng w p s)) = ticks w"
  "fault (snd (executeSQL eng w p s)) = fault w"
  "trace (snd (executeSQL eng w p s)) = trace w"
  by (simp_all add: executeSQL_def case_prod_beta split: option.splits query_result.splits sum.splits)

lemma upload_frame [simp]:
  "lock_items (snd (uploadToS3 w p db)) = lock_items w"
  "files (snd (uploadToS3 w p db)) = files w"
  "clock (snd (uploadToS3 w p db)) = clock w"
  "ticks (snd (uploadToS3 w p db)) = ticks w"
  "fault (snd (uploadToS3 w p db)) = fault w"
  by (simp_all add: uploadToS3_def os_Open_def PutObject_def split: option.splits)

lemma os_Remove_frame [simp]:
  "lock_items (os_Remove w p) = lock_items w"
  "bucket (os_Remove w p) = bucket w"
  "clock (os_Remove w p) = clock w"
  "ticks (os_Remove w p) = ticks w"
  "fault (os_Remove w p) = fault w"
  "trace (os_Remove w p) = trace w @ [EvRemove p]"
  by (simp_all add: os_Remove_def)

lemma os_Remove_files:
  "files (os_Remove w p) = (if faulted w then files w else (files w)(p := None))"
  by (simp add: os_Remove_def)

lemma Handler_downloaded_frame [simp]:
  "lock_items (snd (Handler_downloaded eng w p db s)) = lock_items w"
  "clock (snd (Handler_downloaded eng w p db s)) = clock w"
  "ticks (snd (Handler_downloaded eng w p db s)) = ticks w"
  "fault (snd (Handler_downloaded eng w p db s)) = fault w"
  by (simp_all add: Handler_downloaded_def case_prod_beta split: sum.splits option.splits)

subsection \<open>The handler by the outcome of its steps\<close>

lemma Handler_downloaded_exec_failed:
  assumes "fst (executeSQL eng w p s) = Inl e"
  shows "Handler_downloaded eng w p db s =
           (createErrorResponse 500 (''SQL execution failed: '' @ Sprintf_v e),
            snd (executeSQL eng w p s))"
  using assms by (simp add: Handler_downloaded_def case_prod_beta)

lemma Handler_downloaded_exec_ok:
  assumes "fst (executeSQL eng w p s) = Inr res"
  shows "Handler_downloaded eng w p db s =
           (case fst (uploadToS3 (snd (executeSQL eng w p s)) p db) of
              Some err \<Rightarrow> createErrorResponse 500 (''Failed to upload database: '' @ Sprintf_v err)
            | None \<Rightarrow> createSuccessResponse res,
            snd (uploadToS3 (snd (executeSQL eng w p s)) p db))"
  using assms by (simp add: Handler_downloaded_def case_prod_beta split: option.splits)

lemma Handler_locked_download_failed:
  assumes "fst (downloadFromS3 w db) = Inl e"
  shows "Handler_locked eng w db s =
           (createErrorResponse 500 (''Failed to download database: '' @ Sprintf_v e),
            snd (downloadFromS3 w db))"
  using assms by (simp add: Handler_locked_def case_prod_beta)

lemma Handler_locked_download_ok:
  assumes "fst (downloadFromS3 w db) = Inr p"
  shows "Handler_locked eng w db s =
           (fst (Handler_downloaded eng (snd (downloadFromS3 w db)) p db s),
            os_Remove (snd (Handler_downloaded eng (snd (downloadFromS3 w db)) p db s)) p)"
  using assms by (simp add: Handler_locked_def case_prod_beta)

lemma Handler_locked_frame [simp]:
  "lock_items (snd (Handler_locked eng w db s)) = lock_items w"
  "clock (snd (Handler_locked eng w db s)) = clock w"
  "ticks (snd (Handler_locked eng w db s)) = ticks w"
  "fault (snd (Handler_locked eng w db s)) = fault w"
  by (simp_all add: Handler_locked_def case_prod_beta split: sum.splits)

lemma Handler_invalid:
  "Handler eng w None = (createErrorResponse 400 ''Invalid JSON in request body'', w)"
  "SQLStatement r = [] \<Longrightarrow>
     Handler eng w (Some r) = (createErrorResponse 400 ''SQL statement is required'', w)"
  by (simp_all add: Handler_def Let_def)

lemma Handler_valid:
  assumes "SQLStatement r \<noteq> []"
  shows "Handler eng w (Some r) =
     (let db = (if RequestDatabaseName r = [] then dbFileName else RequestDatabaseName r);
          h = instanceID_at (clock w (ticks w));
          a = acquireDynamoLock (snd (time_Now w)) db h;
          l = Handler_locked eng (snd a) db (SQLStatement r)
      in case fst a of
           Some err \<Rightarrow> (createErrorResponse 409 (''Failed to acquire lock: '' @ Sprintf_v err), snd a)
         | None \<Rightarrow> (fst l, snd (releaseDynamoLock (snd l) db h)))"
  using assms by (simp add: Handler_def Let_def time_Now_def case_prod_beta split: option.splits)

lemma StatusCode_simps [simp]:
  "StatusCode (createErrorResponse c m) = c"
  "StatusCode (createSuccessResponse d) = 200"
  "Body (createSuccessResponse d) = d"
  "Body (createErrorResponse c m) = \<lparr>Success = False, Data = None, Message = [], Error = m\<rparr>"
  by (simp_all add: createErrorResponse_def createSuccessResponse_def)

lemma download_path:
  assumes "fst (downloadFromS3 w db) = Inr p"
  shows "p = ''/tmp/'' @ db"
  using assms
  by (simp add: downloadFromS3_def case_prod_beta Let_def split: sum.splits option.splits)

lemma Handler_stages:
  assumes "SQLStatement r \<noteq> []"
  shows "Handler eng w (Some r) =
     (case fst (stage_acquire w r) of
        Some err \<Rightarrow>
          (createErrorResponse 409 (''Failed to acquire lock: '' @ Sprintf_v err),
           snd (stage_acquire w r))
      | None \<Rightarrow>
          (case fst (stage_download w r) of
             Inl err \<Rightarrow>
               (createErrorResponse 500 (''Failed to download database: '' @ Sprintf_v err),
                snd (releaseDynamoLock (snd (stage_download w r)) (request_db r) (request_holder w)))
           | Inr p \<Rightarrow>
               (case fst (stage_execute eng w r) of
                  Inl err \<Rightarrow>
                    (createErrorResponse 500 (''SQL execution failed: '' @ Sprintf_v err),
                     snd (releaseDynamoLock
                            (os_Remove (snd (stage_execute eng w r)) (''/tmp/'' @ request_db r))
                            (request_db r) (request_holder w)))
                | Inr res \<Rightarrow>
                    (case fst (stage_upload eng w r) of
                       Some err \<Rightarrow>
                         createErrorResponse 500 (''Failed to upload database: '' @ Sprintf_v err)
                     | None \<Rightarrow> createSuccessResponse res,
                     snd (releaseDynamoLock
                            (os_Remove (snd (stage_upload eng w r)) (''/tmp/'' @ request_db r))
                            (request_db r) (request_holder w))))))"
proof (cases "fst (stage_acquire w r)")
  case (Some err)
  then show ?thesis
    using assms
    by (simp add: Handler_valid Let_def stage_acquire_def request_db_def request_holder_def)
next
  case acquired: None
  show ?thesis
  proof (cases "fst (stage_download w r)")
    case (Inl e)
    then show ?thesis
      using assms acquired
      by (simp add: Handler_valid Let_def stage_acquire_def stage_download_def
            request_db_def request_holder_def Handler_locked_download_failed)
  next
    case (Inr p)
    then have p: "p = ''/tmp/'' @ request_db r"
      unfolding stage_download_def by (rule download_path)
    show ?thesis
    proof (cases "fst (stage_execute eng w r)")
      case (Inl e)
      then show ?thesis
        using assms acquired Inr p
        by (simp add: Handler_valid Let_def stage_acquire_def stage_download_def
              stage_execute_def request_db_def request_holder_def
              Handler_locked_download_ok Handler_downloaded_exec_failed)
    next
      case (Inr res)
      then show ?thesis
        using assms acquired \<open>fst (stage_download w r) = Inr p\<close> p
        by (simp add: Handler_valid Let_def stage_acquire_def stage_download_def
              stage_execute_def stage_upload_def request_db_def request_holder_def
              Handler_locked_download_ok Handler_downloaded_exec_ok)
    qed
  qed
qed

text \<open>
  Claim C8. The status code of the response, by the outcome of the steps: 400 when the
  body does not decode or the statement is empty; otherwise 409 when
  \<open>acquireDynamoLock\<close> returns an error; otherwise 500 when the download fails, when
  the execution fails or when the upload fails; and 200 when every step succeeds. In
  particular a lock conflict gives 409: the table holds, for the database of the request,
  an item whose expiry is after the clock reading of the check.
\<close>

theorem handler_status_mapping:
  "StatusCode (fst (Handler eng w None)) = 400
   \<and> StatusCode (fst (Handler eng w (Some r))) =
        (if SQLStatement r = [] then 400
         else if fst (stage_acquire w r) \<noteq> None then 409
         else if isl (fst (stage_download w r)) then 500
         else if isl (fst (stage_execute eng w r)) then 500
         else if fst (stage_upload eng w r) \<noteq> None then 500
         else 200)
   \<and> (\<forall>item. SQLStatement r \<noteq> [] \<and> \<not> faulted w \<and> lock_items w (request_db r) = Some item
           \<and> LeaseTimeout item > Unix (clock w (Suc (ticks w)))
         \<longrightarrow> StatusCode (fst (Handler eng w (Some r))) = 409)"
proof (intro conjI allI impI)
  show "StatusCode (fst (Handler eng w None)) = 400"
    by (simp add: Handler_invalid)
next
  show "StatusCode (fst (Handler eng w (Some r))) =
        (if SQLStatement r = [] then 400
         else if fst (stage_acquire w r) \<noteq> None then 409
         else if isl (fst (stage_download w r)) then 500
         else if isl (fst (stage_execute eng w r)) then 500
         else if fst (stage_upload eng w r) \<noteq> None then 500
         else 200)"
  proof (cases "SQLStatement r = []")
    case True
    then show ?thesis by (simp add: Handler_invalid)
  next
    case False
    then show ?thesis
      by (auto simp: Handler_stages split: option.splits sum.splits)
  qed
next
  fix item
  assume h: "SQLStatement r \<noteq> [] \<and> \<not> faulted w \<and> lock_items w (request_db r) = Some item
           \<and> LeaseTimeout item > Unix (clock w (Suc (ticks w)))"
  then have "fst (stage_acquire w r) \<noteq> None"
    unfolding stage_acquire_def
    using acquire_valid(1) [of "snd (time_Now w)" "request_db r" item "request_holder w"]
    by (simp add: faulted_def)
  then show "StatusCode (fst (Handler eng w (Some r))) = 409"
    using h by (auto simp: Handler_stages)
qed

lemma stage_frames [simp]:
  "fault (snd (stage_acquire w r)) = fault w"
  "fault (snd (stage_download w r)) = fault w"
  "fault (snd (stage_execute eng w r)) = fault w"
  "bucket (snd (stage_acquire w r)) = bucket w"
  "bucket (snd (stage_download w r)) = bucket w"
  "bucket (snd (stage_execute eng w r)) = bucket w"
  "lock_items (snd (stage_download w r)) = lock_items (snd (stage_acquire w r))"
  "lock_items (snd (stage_execute eng w r)) = lock_items (snd (stage_acquire w r))"
  "lock_items (snd (stage_upload eng w r)) = lock_items (snd (stage_acquire w r))"
  "fault (snd (stage_upload eng w r)) = fault w"
  "trace (snd (stage_execute eng w r)) = trace (snd (stage_download w r))"
  by (simp_all add: stage_acquire_def stage_download_def stage_execute_def stage_upload_def)

lemma stage_acquire_item:
  assumes "fst (stage_acquire w r) = None"
  shows "\<exists>now. lock_items (snd (stage_acquire w r)) (request_db r)
           = Some (newLockItem (request_db r) (request_holder w) now)"
  using assms unfolding stage_acquire_def by (rule acquire_success_item)

lemma Handler_release_last:
  assumes "SQLStatement r \<noteq> []" "fst (stage_acquire w r) = None"
  shows "\<exists>w3. snd (Handler eng w (Some r)) = snd (releaseDynamoLock w3 (request_db r) (request_holder w))
           \<and> lock_items w3 = lock_items (snd (stage_acquire w r)) \<and> fault w3 = fault w"
  using assms
  by (auto simp: Handler_stages split: sum.splits option.splits)

text \<open>
  Claim C4. In every invocation that acquires the lock, whatever the later steps do
  (download, execution and upload may each fail or succeed, and the response may be 200
  or 500), the last call the handler makes before it returns is the \<^verbatim>\<open>DeleteItem\<close> of
  \<open>releaseDynamoLock\<close> for the database and the holder id of this invocation; and
  unless that request itself fails for a reason of the infrastructure, the table holds
  no item for the database when the handler returns.
\<close>

theorem lease_released_on_every_path:
  assumes valid: "SQLStatement r \<noteq> []"
    and acquired: "fst (stage_acquire w r) = None"
  shows "last (trace (snd (Handler eng w (Some r))))
           = EvDeleteItem (request_db r) (request_holder w)
     \<and> (\<not> fault w (length (trace (snd (Handler eng w (Some r)))) - 1) \<longrightarrow>
          lock_items (snd (Handler eng w (Some r))) (request_db r) = None)"
proof -
  obtain w3 where w3: "snd (Handler eng w (Some r))
        = snd (releaseDynamoLock w3 (request_db r) (request_holder w))"
      "lock_items w3 = lock_items (snd (stage_acquire w r))" "fault w3 = fault w"
    using Handler_release_last [OF valid acquired] by blast
  obtain now where item: "lock_items w3 (request_db r)
        = Some (newLockItem (request_db r) (request_holder w) now)"
    using stage_acquire_item [OF acquired] w3(2) by auto
  have "faulted w3 = fault w (length (trace w3))"
    by (simp add: faulted_def w3(3))
  then show ?thesis
    using item by (simp add: w3(1) release_lock_items)
qed

lemma stage_acquire_trace:
  "\<exists>evs. trace (snd (stage_acquire w r)) = trace w @ evs \<and> (\<forall>k. EvPutObject k \<notin> set evs)"
  using acquire_trace [of "snd (time_Now w)" "request_db r" "request_holder w"]
  by (simp add: stage_acquire_def)

lemma stage_download_ok:
  assumes "fst (stage_download w r) = Inr p"
  shows "p = ''/tmp/'' @ request_db r"
    and "trace (snd (stage_download w r))
          = trace (snd (stage_acquire w r)) @ [EvGetObject (request_db r), EvCreate p, EvReadFrom p]"
    and "\<exists>body. bucket w (request_db r) = Some body"
proof -
  have eq: "downloadFromS3 (snd (stage_acquire w r)) (request_db r) = (Inr p, snd (stage_download w r))"
    using assms by (simp add: stage_download_def prod_eq_iff)
  show "p = ''/tmp/'' @ request_db r"
    using download_ok(1) [OF eq] .
  show "trace (snd (stage_download w r))
          = trace (snd (stage_acquire w r)) @ [EvGetObject (request_db r), EvCreate p, EvReadFrom p]"
    using download_ok(3) [OF eq] .
  show "\<exists>body. bucket w (request_db r) = Some body"
    using download_ok(2) [OF eq] by auto
qed

text \<open>
  Claim C9. When the lock is acquired, the download succeeds and \<open>executeSQL\<close> returns an
  error, the response is 500, the bucket is exactly as it was before the invocation, no
  \<^verbatim>\<open>PutObject\<close> is among the calls of the invocation (after the download come only the
  removal of the local file and the release of the lock), and the local file is gone
  unless \<^verbatim>\<open>os.Remove\<close> itself fails.
\<close>

theorem failed_execution_leaves_snapshot:
  assumes valid: "SQLStatement r \<noteq> []"
    and acquired: "fst (stage_acquire w r) = None"
    and downloaded: "fst (stage_download w r) = Inr p"
    and failed: "fst (stage_execute eng w r) = Inl e"
  shows "StatusCode (fst (Handler eng w (Some r))) = 500
     \<and> bucket (snd (Handler eng w (Some r))) = bucket w
     \<and> trace (snd (Handler eng w (Some r)))
         = trace (snd (stage_download w r))
           @ [EvRemove p, EvDeleteItem (request_db r) (request_holder w)]
     \<and> (\<forall>k. EvPutObject k \<notin> set (drop (length (trace w)) (trace (snd (Handler eng w (Some r))))))
     \<and> (\<not> fault w (length (trace (snd (stage_download w r)))) \<longrightarrow>
          files (snd (Handler eng w (Some r))) p = None)"
proof -
  have p: "p = ''/tmp/'' @ request_db r"
    using downloaded by (rule stage_download_ok(1))
  have H: "Handler eng w (Some r) =
      (createErrorResponse 500 (''SQL execution failed: '' @ Sprintf_v e),
       snd (releaseDynamoLock (os_Remove (snd (stage_execute eng w r)) p)
              (request_db r) (request_holder w)))"
    using valid acquired downloaded failed by (simp add: Handler_stages p)
  obtain evs where evs: "trace (snd (stage_acquire w r)) = trace w @ evs"
      "\<forall>k. EvPutObject k \<notin> set evs"
    using stage_acquire_trace by blast
  have tr: "trace (snd (Handler eng w (Some r)))
         = trace (snd (stage_download w r))
           @ [EvRemove p, EvDeleteItem (request_db r) (request_holder w)]"
    by (simp add: H)
  have "faulted (snd (stage_execute eng w r)) = fault w (length (trace (snd (stage_download w r))))"
    by (simp add: faulted_def)
  then have fl: "\<not> fault w (length (trace (snd (stage_download w r)))) \<longrightarrow>
          files (snd (Handler eng w (Some r))) p = None"
    by (simp add: H os_Remove_files)
  have "\<forall>k. EvPutObject k \<notin> set (drop (length (trace w)) (trace (snd (Handler eng w (Some r)))))"
    using evs by (simp add: tr stage_download_ok(2) [OF downloaded])
  then show ?thesis
    using tr fl by (simp add: H)
qed

lemma Sprintf_d_3: "Sprintf_d 3 = ''3''"
  by code_simp

lemma Sprintf_d_2: "Sprintf_d 2 = ''2''"
  by code_simp





text \<open>
  The statements of claim C6 are read-only and fail the prefix test, so they are among
  those of which the amended claim C7 says nothing.
\<close>

lemma misclassified_selects_are_read_only:
  "effect_category ''select 1'' = ReadOnly \<and> \<not> isSelect ''select 1''
   \<and> effect_category '' SELECT 1'' = ReadOnly \<and> \<not> isSelect '' SELECT 1''"
  by (simp add: effect_category_def has_keyword_def is_space_def to_upper_def isSelect_def)



subsection \<open>Evaluation in worlds without faults\<close>

lemma free_faulted: "fault w = (\<lambda>n. False) \<Longrightarrow> \<not> faulted w"
  by (simp add: faulted_def)

lemma free_stage_acquire:
  assumes "fault w = (\<lambda>n. False)" "lock_items w (request_db r) = None"
  shows "fst (stage_acquire w r) = None"
    and "lock_items (snd (stage_acquire w r))
           = (lock_items w)(request_db r \<mapsto>
                newLockItem (request_db r) (request_holder w) (clock w (Suc (ticks w))))"
  using assms
  by (simp_all add: stage_acquire_def acquire_absent acquire_put_result acquire_put_lock_items
        faulted_def)

lemma stage_acquire_files [simp]: "files (snd (stage_acquire w r)) = files w"
  by (simp add: stage_acquire_def)

lemma free_stage_download_absent:
  assumes "fault w = (\<lambda>n. False)" "bucket w (request_db r) = None"
  shows "fst (stage_download w r)
           = Inl (Errorf ''failed to get object from S3: '' (AwsErr NoSuchKey))"
    and "snd (stage_download w r) = emit (EvGetObject (request_db r)) (snd (stage_acquire w r))"
  using assms
  by (simp_all add: stage_download_def download_absent faulted_def)

lemma free_stage_download_present:
  assumes "fault w = (\<lambda>n. False)" "bucket w (request_db r) = Some body"
  shows "fst (stage_download w r) = Inr (''/tmp/'' @ request_db r)"
    and "files (snd (stage_download w r)) = (files w)(''/tmp/'' @ request_db r \<mapsto> body)"
  using assms
  by (simp_all add: stage_download_def downloadFromS3_def GetObject_def os_Create_def
        ReadFrom_def faulted_def Let_def)

lemma free_stage_upload:
  assumes "fault w = (\<lambda>n. False)"
    and "files (snd (stage_execute eng w r)) (''/tmp/'' @ request_db r) = Some content"
  shows "fst (stage_upload eng w r) = None"
    and "bucket (snd (stage_upload eng w r)) = (bucket w)(request_db r \<mapsto> content)"
  using assms
  by (simp_all add: stage_upload_def uploadToS3_def os_Open_def PutObject_def faulted_def)

lemma request_db_simps [simp]:
  "request_db \<lparr>SQLStatement = s, RequestDatabaseName = []\<rparr> = ''database.db''"
  "request_db \<lparr>SQLStatement = s, RequestDatabaseName = c # cs\<rparr> = c # cs"
  by (simp_all add: request_db_def dbFileName_def)

lemma digit_chars:
  "char_of (48::nat) = CHR ''0''" "char_of (49::nat) = CHR ''1''" "char_of (50::nat) = CHR ''2''"
  "char_of (51::nat) = CHR ''3''" "char_of (52::nat) = CHR ''4''" "char_of (53::nat) = CHR ''5''"
  "char_of (54::nat) = CHR ''6''" "char_of (55::nat) = CHR ''7''" "char_of (56::nat) = CHR ''8''"
  "char_of (57::nat) = CHR ''9''"
  by code_simp+

lemma request_holder_example [simp]:
  "request_holder (example_world tbl bkt flt) = ''lambda-2000000000000''"
proof -
  have "Sprintf_d 2000000000000 = ''2000000000000''"
    by (simp add: Sprintf_d_def nat_digits.simps digit_chars)
  then show ?thesis
    by (simp add: request_holder_def instanceID_at_def UnixNano_def Second_def)
qed

text \<open>
  The bucket is empty, so the download fails and the response is 500; the lock, acquired
  before, is released by the last call and the table is empty again.
\<close>

theorem lease_released_on_every_path_witness:
  "SQLStatement \<lparr>SQLStatement = ''SELECT 1'', RequestDatabaseName = []\<rparr> \<noteq> []
   \<and> fst (stage_acquire (example_world Map.empty Map.empty (\<lambda>n. False))
            \<lparr>SQLStatement = ''SELECT 1'', RequestDatabaseName = []\<rparr>) = None
   \<and> StatusCode (fst (Handler example_engine (example_world Map.empty Map.empty (\<lambda>n. False))
            (Some \<lparr>SQLStatement = ''SELECT 1'', RequestDatabaseName = []\<rparr>))) = 500
   \<and> last (trace (snd (Handler example_engine (example_world Map.empty Map.empty (\<lambda>n. False))
            (Some \<lparr>SQLStatement = ''SELECT 1'', RequestDatabaseName = []\<rparr>))))
       = EvDeleteItem ''database.db'' ''lambda-2000000000000''
   \<and> lock_items (snd (Handler example_engine (example_world Map.empty Map.empty (\<lambda>n. False))
            (Some \<lparr>SQLStatement = ''SELECT 1'', RequestDatabaseName = []\<rparr>))) ''database.db'' = None"
proof -
  let ?w = "example_world Map.empty Map.empty (\<lambda>n. False)"
  let ?r = "\<lparr>SQLStatement = ''SELECT 1'', RequestDatabaseName = []\<rparr>"
  have valid: "SQLStatement ?r \<noteq> []" by simp
  have acquired: "fst (stage_acquire ?w ?r) = None"
    by (rule free_stage_acquire) simp_all
  have absent: "fst (stage_download ?w ?r)
           = Inl (Errorf ''failed to get object from S3: '' (AwsErr NoSuchKey))"
    by (rule free_stage_download_absent) simp_all
  have status: "StatusCode (fst (Handler example_engine ?w (Some ?r))) = 500"
    using acquired absent by (simp add: Handler_stages)
  show ?thesis
    using valid acquired status
      lease_released_on_every_path [of ?r ?w example_engine, OF valid acquired]
    by simp
qed

lemma example_execute_select:
  assumes "isSelect (SQLStatement r)"
  shows "\<not> isl (fst (stage_execute example_engine w r))"
    and "files (snd (stage_execute example_engine w r)) = files (snd (stage_download w r))"
  using assms
  by (simp_all add: stage_execute_def executeSQL_def example_engine_def)

lemma example_execute_invalid:
  assumes "SQLStatement r = ''INVALID SQL STATEMENT''"
  shows "fst (stage_execute example_engine w r)
           = Inl (Errorf ''query execution failed: '' (ErrorMsg ''syntax error''))"
  using assms
  by (simp add: stage_execute_def executeSQL_def example_engine_def isSelect_def)

lemma isSelect_SELECT_1: "isSelect ''SELECT 1''"
  by (simp add: isSelect_def)

text \<open>
  One invocation for each status: an undecodable body and an empty statement (400), a
  lease that is still valid (409), a missing object (500), a failing statement (500) and
  a query on an existing database (200).
\<close>

theorem handler_status_mapping_witness:
  "StatusCode (fst (Handler example_engine
       (example_world Map.empty [''database.db'' \<mapsto> ''db''] (\<lambda>n. False)) None)) = 400
   \<and> StatusCode (fst (Handler example_engine
       (example_world Map.empty [''database.db'' \<mapsto> ''db''] (\<lambda>n. False))
       (Some \<lparr>SQLStatement = [], RequestDatabaseName = []\<rparr>))) = 400
   \<and> StatusCode (fst (Handler example_engine
       (example_world [''database.db'' \<mapsto> example_item ''lambda-1'' 2300]
          [''database.db'' \<mapsto> ''db''] (\<lambda>n. False))
       (Some \<lparr>SQLStatement = ''SELECT 1'', RequestDatabaseName = []\<rparr>))) = 409
   \<and> StatusCode (fst (Handler example_engine
       (example_world Map.empty Map.empty (\<lambda>n. False))
       (Some \<lparr>SQLStatement = ''SELECT 1'', RequestDatabaseName = []\<rparr>))) = 500
   \<and> StatusCode (fst (Handler example_engine
       (example_world Map.empty [''database.db'' \<mapsto> ''db''] (\<lambda>n. False))
       (Some \<lparr>SQLStatement = ''INVALID SQL STATEMENT'', RequestDatabaseName = []\<rparr>))) = 500
   \<and> StatusCode (fst (Handler example_engine
       (example_world Map.empty [''database.db'' \<mapsto> ''db''] (\<lambda>n. False))
       (Some \<lparr>SQLStatement = ''SELECT 1'', RequestDatabaseName = []\<rparr>))) = 200"
proof -
  let ?ok = "example_world Map.empty [''database.db'' \<mapsto> ''db''] (\<lambda>n. False)"
  let ?held = "example_world [''database.db'' \<mapsto> example_item ''lambda-1'' 2300]
          [''database.db'' \<mapsto> ''db''] (\<lambda>n. False)"
  let ?empty = "example_world Map.empty Map.empty (\<lambda>n. False)"
  let ?sel = "\<lparr>SQLStatement = ''SELECT 1'', RequestDatabaseName = []\<rparr>"
  let ?inv = "\<lparr>SQLStatement = ''INVALID SQL STATEMENT'', RequestDatabaseName = []\<rparr>"
  have held: "SQLStatement ?sel \<noteq> [] \<and> \<not> faulted ?held
      \<and> lock_items ?held (request_db ?sel) = Some (example_item ''lambda-1'' 2300)
      \<and> LeaseTimeout (example_item ''lambda-1'' 2300) > Unix (clock ?held (Suc (ticks ?held)))"
    by (simp add: faulted_def Unix_def Second_def)
  have a_empty: "fst (stage_acquire ?empty ?sel) = None"
    by (rule free_stage_acquire) simp_all
  have d_empty: "isl (fst (stage_download ?empty ?sel))"
    by (subst free_stage_download_absent) simp_all
  have a_ok: "fst (stage_acquire ?ok ?sel) = None" "fst (stage_acquire ?ok ?inv) = None"
    by (rule free_stage_acquire; simp)+
  have d_ok: "fst (stage_download ?ok ?sel) = Inr ''/tmp/database.db''"
      "fst (stage_download ?ok ?inv) = Inr ''/tmp/database.db''"
    by (subst free_stage_download_present [where body = "''db''"]; simp)+
  have x_inv: "isl (fst (stage_execute example_engine ?ok ?inv))"
    by (simp add: example_execute_invalid)
  have x_sel: "\<not> isl (fst (stage_execute example_engine ?ok ?sel))"
    by (rule example_execute_select) (simp add: isSelect_SELECT_1)
  have "files (snd (stage_execute example_engine ?ok ?sel)) (''/tmp/'' @ request_db ?sel) = Some ''db''"
    by (simp add: example_execute_select isSelect_SELECT_1
          free_stage_download_present [where body = "''db''"])
  then have u_sel: "fst (stage_upload example_engine ?ok ?sel) = None"
    by (rule free_stage_upload(1) [rotated]) simp
  show ?thesis
    using handler_status_mapping [of example_engine ?ok ?sel]
      handler_status_mapping [of example_engine ?ok "\<lparr>SQLStatement = [], RequestDatabaseName = []\<rparr>"]
      handler_status_mapping [of example_engine ?held ?sel]
      handler_status_mapping [of example_engine ?empty ?sel]
      handler_status_mapping [of example_engine ?ok ?inv]
      held a_empty d_empty a_ok d_ok x_inv x_sel u_sel
    by simp
qed

text \<open>
  The statement \<^verbatim>\<open>INVALID SQL STATEMENT\<close> fails in the engine: the response is 500, the
  object in the bucket is the one that was there, and the local copy is removed.
\<close>

theorem failed_execution_leaves_snapshot_witness:
  "SQLStatement \<lparr>SQLStatement = ''INVALID SQL STATEMENT'', RequestDatabaseName = []\<rparr> \<noteq> []
   \<and> fst (stage_acquire (example_world Map.empty [''database.db'' \<mapsto> ''db''] (\<lambda>n. False))
        \<lparr>SQLStatement = ''INVALID SQL STATEMENT'', RequestDatabaseName = []\<rparr>) = None
   \<and> fst (stage_download (example_world Map.empty [''database.db'' \<mapsto> ''db''] (\<lambda>n. False))
        \<lparr>SQLStatement = ''INVALID SQL STATEMENT'', RequestDatabaseName = []\<rparr>)
       = Inr ''/tmp/database.db''
   \<and> fst (stage_execute example_engine
        (example_world Map.empty [''database.db'' \<mapsto> ''db''] (\<lambda>n. False))
        \<lparr>SQLStatement = ''INVALID SQL STATEMENT'', RequestDatabaseName = []\<rparr>)
       = Inl (Errorf ''query execution failed: '' (ErrorMsg ''syntax error''))
   \<and> StatusCode (fst (Handler example_engine
        (example_world Map.empty [''database.db'' \<mapsto> ''db''] (\<lambda>n. False))
        (Some \<lparr>SQLStatement = ''INVALID SQL STATEMENT'', RequestDatabaseName = []\<rparr>))) = 500
   \<and> bucket (snd (Handler example_engine
        (example_world Map.empty [''database.db'' \<mapsto> ''db''] (\<lambda>n. False))
        (Some \<lparr>SQLStatement = ''INVALID SQL STATEMENT'', RequestDatabaseName = []\<rparr>)))
       = [''database.db'' \<mapsto> ''db'']
   \<and> files (snd (Handler example_engine
        (example_world Map.empty [''database.db'' \<mapsto> ''db''] (\<lambda>n. False))
        (Some \<lparr>SQLStatement = ''INVALID SQL STATEMENT'', RequestDatabaseName = []\<rparr>)))
        ''/tmp/database.db'' = None"
proof -
  let ?ok = "example_world Map.empty [''database.db'' \<mapsto> ''db''] (\<lambda>n. False)"
  let ?inv = "\<lparr>SQLStatement = ''INVALID SQL STATEMENT'', RequestDatabaseName = []\<rparr>"
  have valid: "SQLStatement ?inv \<noteq> []" by simp
  have a: "fst (stage_acquire ?ok ?inv) = None"
    by (rule free_stage_acquire) simp_all
  have d: "fst (stage_download ?ok ?inv) = Inr ''/tmp/database.db''"
    by (subst free_stage_download_present [where body = "''db''"]) simp_all
  have x: "fst (stage_execute example_engine ?ok ?inv)
       = Inl (Errorf ''query execution failed: '' (ErrorMsg ''syntax error''))"
    by (simp add: example_execute_invalid)
  show ?thesis
    using valid a d x failed_execution_leaves_snapshot [OF valid a d x]
    by simp
qed


text \<open>
  Claim C5 does not hold of the code. \<open>downloadFromS3\<close> turns every error of
  \<^verbatim>\<open>GetObject\<close> into a failure, and the handler answers every failure of the download
  with 500: a missing object is not told apart from an unreachable store, and no empty
  database is created. Here the database \<^verbatim>\<open>t.db\<close> has never been written and the
  statement creates a table: whatever the engine, the response is 500 with the error of
  the missing key, the engine is not called, the bucket stays empty, and the lock is
  released.
\<close>

theorem missing_snapshot_is_not_bootstrapped:
  "fst (Handler eng (example_world Map.empty Map.empty (\<lambda>n. False))
         (Some \<lparr>SQLStatement = ''CREATE TABLE logs(id INTEGER PRIMARY KEY, message TEXT)'',
                 RequestDatabaseName = ''t.db''\<rparr>))
     = createErrorResponse 500
         ''Failed to download database: failed to get object from S3: NoSuchKey''
   \<and> bucket (snd (Handler eng (example_world Map.empty Map.empty (\<lambda>n. False))
         (Some \<lparr>SQLStatement = ''CREATE TABLE logs(id INTEGER PRIMARY KEY, message TEXT)'',
                 RequestDatabaseName = ''t.db''\<rparr>))) = Map.empty
   \<and> files (snd (Handler eng (example_world Map.empty Map.empty (\<lambda>n. False))
         (Some \<lparr>SQLStatement = ''CREATE TABLE logs(id INTEGER PRIMARY KEY, message TEXT)'',
                 RequestDatabaseName = ''t.db''\<rparr>))) = Map.empty
   \<and> lock_items (snd (Handler eng (example_world Map.empty Map.empty (\<lambda>n. False))
         (Some \<lparr>SQLStatement = ''CREATE TABLE logs(id INTEGER PRIMARY KEY, message TEXT)'',
                 RequestDatabaseName = ''t.db''\<rparr>))) = Map.empty"
proof -
  let ?w = "example_world Map.empty Map.empty (\<lambda>n. False)"
  let ?r = "\<lparr>SQLStatement = ''CREATE TABLE logs(id INTEGER PRIMARY KEY, message TEXT)'',
                 RequestDatabaseName = ''t.db''\<rparr>"
  have valid: "SQLStatement ?r \<noteq> []" by simp
  have a: "fst (stage_acquire ?w ?r) = None"
    by (rule free_stage_acquire) simp_all
  have items: "lock_items (snd (stage_acquire ?w ?r))
           = [''t.db'' \<mapsto> newLockItem ''t.db'' ''lambda-2000000000000'' (clock ?w (Suc (ticks ?w)))]"
    by (subst free_stage_acquire(2)) simp_all
  have d: "fst (stage_download ?w ?r)
           = Inl (Errorf ''failed to get object from S3: '' (AwsErr NoSuchKey))"
    by (rule free_stage_download_absent) simp_all
  have H: "Handler eng ?w (Some ?r) =
      (createErrorResponse 500
         ''Failed to download database: failed to get object from S3: NoSuchKey'',
       snd (releaseDynamoLock (snd (stage_download ?w ?r)) ''t.db'' ''lambda-2000000000000''))"
    using a d by (simp add: Handler_stages)
  have nf: "\<not> faulted (snd (stage_download ?w ?r))"
    by (simp add: faulted_def)
  have w3: "snd (stage_download ?w ?r) = emit (EvGetObject ''t.db'') (snd (stage_acquire ?w ?r))"
    by (subst free_stage_download_absent(2)) simp_all
  show ?thesis
    using nf items by (simp add: H release_lock_items w3)
qed

text \<open>
  Claim C6 does not hold of the code. \<open>isSelect\<close> is the test that the statement is
  longer than six bytes and starts with the bytes \<^verbatim>\<open>SELECT\<close>: it is case-sensitive and
  does not skip leading white space. \<^verbatim>\<open>SELECT 1\<close> is run as a query and returns rows;
  \<^verbatim>\<open>select 1\<close> and the same statement after one space are run through \<^verbatim>\<open>db.Exec\<close> and
  return a count of rows affected and no rows.
\<close>

theorem select_prefix_test_is_brittle:
  "isSelect ''SELECT 1'' \<and> \<not> isSelect ''select 1'' \<and> \<not> isSelect '' SELECT 1''
   \<and> fst (executeSQL example_engine
          (example_world Map.empty Map.empty (\<lambda>n. False)\<lparr>files := [''/tmp/database.db'' \<mapsto> ''db'']\<rparr>)
          ''/tmp/database.db'' ''SELECT 1'')
     = Inr \<lparr>Success = True,
            Data = Some (map (make_row [''id'', ''total'']) [[1, 10], [2, 20]]),
            Message = ''Query executed successfully, returned 2 rows'', Error = []\<rparr>
   \<and> fst (executeSQL example_engine
          (example_world Map.empty Map.empty (\<lambda>n. False)\<lparr>files := [''/tmp/database.db'' \<mapsto> ''db'']\<rparr>)
          ''/tmp/database.db'' ''select 1'')
     = Inr \<lparr>Success = True, Data = None,
            Message = ''Query executed successfully, 3 rows affected'', Error = []\<rparr>
   \<and> fst (executeSQL example_engine
          (example_world Map.empty Map.empty (\<lambda>n. False)\<lparr>files := [''/tmp/database.db'' \<mapsto> ''db'']\<rparr>)
          ''/tmp/database.db'' '' SELECT 1'')
     = Inr \<lparr>Success = True, Data = None,
            Message = ''Query executed successfully, 3 rows affected'', Error = []\<rparr>"
  by (simp add: executeSQL_def example_engine_def isSelect_def Sprintf_d_3 Sprintf_d_2)

section \<open>Properties of concurrent acquisitions\<close>

subsection \<open>The invariant of a run\<close>

lemma winners_update_other:
  assumes "k < length pcs" "pcs ! k \<noteq> Returned None" "p \<noteq> Returned None"
  shows "winners (pcs[k := p]) = winners pcs"
  using assms by (auto simp: winners_def nth_list_update)

lemma winners_update:
  assumes "k < length pcs"
  shows "winners (pcs[k := p]) =
           (if p = Returned None then insert k (winners pcs) else winners pcs - {k})"
  using assms by (auto simp: winners_def nth_list_update)

lemma acquire_inv_init:
  "acquire_inv db hs (tbl db) T (tbl, replicate (length hs) AtGetItem)"
  by (auto simp: acquire_inv_def winners_def)

lemma acquire_invD:
  assumes "acquire_inv db hs x0 T (tbl, pcs)"
  shows "length pcs = length hs"
    and "\<And>x. AtDeleteItem x \<in> set pcs \<Longrightarrow> x0 = Some x"
    and "winners pcs = {} \<Longrightarrow> tbl db = None \<or> tbl db = x0"
    and "winners pcs = {} \<Longrightarrow> AtPutItem \<in> set pcs \<Longrightarrow> tbl db = None"
    and "\<And>e. winners pcs = {} \<Longrightarrow> Returned (Some e) \<notin> set pcs"
    and "\<And>i. i \<in> winners pcs \<Longrightarrow> winners pcs = {i}"
    and "\<And>i. i \<in> winners pcs \<Longrightarrow>
           \<exists>r. tbl db = Some r \<and> InstanceID r = hs ! i \<and> (\<forall>t\<in>T. Unix t < LeaseTimeout r)"
  using assms unfolding acquire_inv_def prod.case by simp_all

lemma acquire_invI:
  assumes "length pcs = length hs"
    and "\<And>x. AtDeleteItem x \<in> set pcs \<Longrightarrow> x0 = Some x"
    and "winners pcs = {} \<Longrightarrow> tbl db = None \<or> tbl db = x0"
    and "winners pcs = {} \<Longrightarrow> AtPutItem \<in> set pcs \<Longrightarrow> tbl db = None"
    and "\<And>e. winners pcs = {} \<Longrightarrow> Returned (Some e) \<notin> set pcs"
    and "\<And>i. i \<in> winners pcs \<Longrightarrow> winners pcs = {i}"
    and "\<And>i. i \<in> winners pcs \<Longrightarrow>
           \<exists>r. tbl db = Some r \<and> InstanceID r = hs ! i \<and> (\<forall>t\<in>T. Unix t < LeaseTimeout r)"
  shows "acquire_inv db hs x0 T (tbl, pcs)"
  unfolding acquire_inv_def prod.case
  using assms by (intro conjI allI impI ballI) blast+

lemma in_set_update2:
  assumes "p \<in> set (pcs[k := q])"
  shows "q = p \<or> p \<in> set pcs"
  using assms set_update_subset_insert [of pcs k q] by auto

lemma get_step:
  assumes "acquire_step db h t tbl AtGetItem = (tbl', p)"
  shows "tbl' = tbl"
    and "(tbl db = None \<and> p = AtPutItem)
         \<or> (\<exists>x. tbl db = Some x \<and> LeaseTimeout x > Unix t \<and> (\<exists>e. p = Returned (Some e)))
         \<or> (\<exists>x. tbl db = Some x \<and> \<not> LeaseTimeout x > Unix t \<and> p = AtDeleteItem x)"
  using assms by (auto simp: table_GetItem_def split: option.splits if_splits)

lemma delete_step:
  assumes "acquire_step db h t tbl (AtDeleteItem x) = (tbl', p)"
  shows "p = AtPutItem"
    and "tbl' = (if \<exists>y. tbl db = Some y \<and> InstanceID y = InstanceID x then tbl(db := None) else tbl)"
  using assms by (auto simp: table_DeleteItem_def split: option.splits if_splits)

lemma put_step:
  assumes "acquire_step db h t tbl AtPutItem = (tbl', p)"
  shows "(tbl db = None \<and> tbl' = tbl(db \<mapsto> newLockItem db h t) \<and> p = Returned None)
         \<or> (tbl db \<noteq> None \<and> tbl' = tbl \<and> (\<exists>e. p = Returned (Some e)))"
  using assms by (auto simp: table_PutItem_def split: option.splits if_splits)

lemma acquire_inv_get:
  assumes inv: "acquire_inv db hs x0 T (tbl, pcs)"
    and stale: "\<forall>x. x0 = Some x \<longrightarrow> InstanceID x \<notin> set hs \<and> (\<forall>t\<in>T. LeaseTimeout x \<le> Unix t)"
    and t: "t \<in> T"
    and k: "k < length pcs" and pc: "pcs ! k = AtGetItem"
    and step: "acquire_step db h t tbl AtGetItem = (tbl', p)"
  shows "acquire_inv db hs x0 T (tbl', pcs[k := p])"
proof -
  note D = acquire_invD [OF inv]
  have tbl': "tbl' = tbl" using step by (rule get_step(1))
  note cases = get_step(2) [OF step]
  have pne: "p \<noteq> Returned None" using cases by auto
  have W: "winners (pcs[k := p]) = winners pcs"
    using k pc pne by (simp add: winners_update_other)
  have valid_won: "Unix t < LeaseTimeout r" if "winners pcs \<noteq> {}" "tbl db = Some r" for r
  proof -
    from that obtain i where "i \<in> winners pcs" by auto
    then obtain r' where "tbl db = Some r'" "\<forall>t\<in>T. Unix t < LeaseTimeout r'"
      using D(7) by blast
    then show ?thesis using that t by auto
  qed
  show ?thesis
    unfolding tbl'
  proof (rule acquire_invI)
    show "length (pcs[k := p]) = length hs" using D(1) by simp
  next
    fix x assume "AtDeleteItem x \<in> set (pcs[k := p])"
    then have "p = AtDeleteItem x \<or> AtDeleteItem x \<in> set pcs"
      by (rule in_set_update2)
    then consider "p = AtDeleteItem x" | "AtDeleteItem x \<in> set pcs"
      by blast
    then show "x0 = Some x"
    proof cases
      case 1
      then have x: "tbl db = Some x" "\<not> LeaseTimeout x > Unix t"
        using cases by auto
      then have "winners pcs = {}" using valid_won by blast
      then show ?thesis using D(3) x by auto
    next
      case 2
      then show ?thesis by (rule D(2))
    qed
  next
    assume "winners (pcs[k := p]) = {}"
    then have "winners pcs = {}" by (simp only: W)
    then show "tbl db = None \<or> tbl db = x0" by (rule D(3))
  next
    assume W0: "winners (pcs[k := p]) = {}"
    assume "AtPutItem \<in> set (pcs[k := p])"
    then have "p = AtPutItem \<or> AtPutItem \<in> set pcs"
      by (rule in_set_update2)
    then consider "p = AtPutItem" | "AtPutItem \<in> set pcs"
      by blast
    then show "tbl db = None"
    proof cases
      case 1
      then show ?thesis using cases by auto
    next
      case 2
      moreover have "winners pcs = {}" using W0 by (simp only: W)
      ultimately show ?thesis using D(4) by blast
    qed
  next
    fix e
    assume W0: "winners (pcs[k := p]) = {}"
    show "Returned (Some e) \<notin> set (pcs[k := p])"
    proof
      assume "Returned (Some e) \<in> set (pcs[k := p])"
      then have "p = Returned (Some e) \<or> Returned (Some e) \<in> set pcs"
        by (rule in_set_update2)
      then consider "p = Returned (Some e)" | "Returned (Some e) \<in> set pcs"
        by blast
      then show False
      proof cases
        case 1
        then obtain x where x: "tbl db = Some x" "LeaseTimeout x > Unix t"
          using cases by auto
        moreover have "winners pcs = {}" using W0 by (simp only: W)
        ultimately have "x0 = Some x" using D(3) by auto
        then have "LeaseTimeout x \<le> Unix t" using stale t by blast
        then show False using x by simp
      next
        case 2
        moreover have "winners pcs = {}" using W0 by (simp only: W)
        ultimately show False using D(5) by blast
      qed
    qed
  next
    fix i assume "i \<in> winners (pcs[k := p])"
    then have "i \<in> winners pcs" by (simp only: W)
    then show "winners (pcs[k := p]) = {i}" unfolding W by (rule D(6))
  next
    fix i assume "i \<in> winners (pcs[k := p])"
    then have "i \<in> winners pcs" by (simp only: W)
    then show "\<exists>r. tbl db = Some r \<and> InstanceID r = hs ! i \<and> (\<forall>t\<in>T. Unix t < LeaseTimeout r)"
      by (rule D(7))
  qed
qed

lemma winner_in_hs:
  assumes "i \<in> winners pcs" "length pcs = length hs"
  shows "hs ! i \<in> set hs"
  using assms by (simp add: winners_def)

lemma acquire_inv_delete:
  assumes inv: "acquire_inv db hs x0 T (tbl, pcs)"
    and stale: "\<forall>x. x0 = Some x \<longrightarrow> InstanceID x \<notin> set hs \<and> (\<forall>t\<in>T. LeaseTimeout x \<le> Unix t)"
    and k: "k < length pcs" and pc: "pcs ! k = AtDeleteItem x"
    and step: "acquire_step db h t tbl (AtDeleteItem x) = (tbl', p)"
  shows "acquire_inv db hs x0 T (tbl', pcs[k := p])"
proof -
  note D = acquire_invD [OF inv]
  have p: "p = AtPutItem" using step by (rule delete_step(1))
  have tbl': "tbl' = (if \<exists>y. tbl db = Some y \<and> InstanceID y = InstanceID x
                      then tbl(db := None) else tbl)"
    using step by (rule delete_step(2))
  have "AtDeleteItem x \<in> set pcs"
    using k pc by (metis nth_mem)
  then have x0: "x0 = Some x" by (rule D(2))
  then have xid: "InstanceID x \<notin> set hs" using stale by blast
  have W: "winners (pcs[k := p]) = winners pcs"
    using k pc p by (simp add: winners_update_other)
  have same_if_won: "tbl' = tbl" if iw: "i \<in> winners pcs" for i
  proof -
    obtain r where r: "tbl db = Some r" "InstanceID r = hs ! i"
      using D(7) [OF iw] by blast
    have "hs ! i \<in> set hs" using iw D(1) by (rule winner_in_hs)
    then have "InstanceID r \<noteq> InstanceID x" using r xid by auto
    then show ?thesis using r by (simp add: tbl')
  qed
  have gone_if_free: "tbl' db = None" if W0: "winners pcs = {}"
  proof -
    have "tbl db = None \<or> tbl db = Some x" using D(3) [OF W0] x0 by simp
    then show ?thesis by (auto simp: tbl')
  qed
  show ?thesis
  proof (rule acquire_invI)
    show "length (pcs[k := p]) = length hs" using D(1) by simp
  next
    fix y assume "AtDeleteItem y \<in> set (pcs[k := p])"
    then have "p = AtDeleteItem y \<or> AtDeleteItem y \<in> set pcs"
      by (rule in_set_update2)
    then have "AtDeleteItem y \<in> set pcs" using p by simp
    then show "x0 = Some y" by (rule D(2))
  next
    assume "winners (pcs[k := p]) = {}"
    then have "winners pcs = {}" by (simp only: W)
    then show "tbl' db = None \<or> tbl' db = x0" using gone_if_free by simp
  next
    assume "winners (pcs[k := p]) = {}"
    then have "winners pcs = {}" by (simp only: W)
    then show "tbl' db = None" by (rule gone_if_free)
  next
    fix e
    assume "winners (pcs[k := p]) = {}"
    then have W0: "winners pcs = {}" by (simp only: W)
    show "Returned (Some e) \<notin> set (pcs[k := p])"
    proof
      assume "Returned (Some e) \<in> set (pcs[k := p])"
      then have "p = Returned (Some e) \<or> Returned (Some e) \<in> set pcs"
        by (rule in_set_update2)
      then have "Returned (Some e) \<in> set pcs" using p by simp
      then show False using D(5) [OF W0] by simp
    qed
  next
    fix i assume "i \<in> winners (pcs[k := p])"
    then have "i \<in> winners pcs" by (simp only: W)
    then show "winners (pcs[k := p]) = {i}" unfolding W by (rule D(6))
  next
    fix i assume "i \<in> winners (pcs[k := p])"
    then have i: "i \<in> winners pcs" by (simp only: W)
    show "\<exists>r. tbl' db = Some r \<and> InstanceID r = hs ! i \<and> (\<forall>t\<in>T. Unix t < LeaseTimeout r)"
      unfolding same_if_won [OF i] using i by (rule D(7))
  qed
qed

lemma acquire_inv_put:
  assumes inv: "acquire_inv db hs x0 T (tbl, pcs)"
    and window: "\<forall>t\<in>T. \<forall>t'\<in>T. Unix t < Unix t' + 300"
    and t: "t \<in> T"
    and k: "k < length pcs" and pc: "pcs ! k = AtPutItem"
    and step: "acquire_step db (hs ! k) t tbl AtPutItem = (tbl', p)"
  shows "acquire_inv db hs x0 T (tbl', pcs[k := p])"
proof -
  note D = acquire_invD [OF inv]
  note cases = put_step [OF step]
  have mem: "AtPutItem \<in> set pcs" using k pc by (metis nth_mem)
  have kW: "k \<notin> winners pcs" using pc by (simp add: winners_def)
  show ?thesis
  proof (cases "winners pcs = {}")
    case True
    then have "tbl db = None" using mem by (rule D(4))
    then have tbl': "tbl' = tbl(db \<mapsto> newLockItem db (hs ! k) t)" and p: "p = Returned None"
      using cases by auto
    have W: "winners (pcs[k := p]) = {k}"
      using k True by (simp add: winners_update p)
    show ?thesis
    proof (rule acquire_invI)
      show "length (pcs[k := p]) = length hs" using D(1) by simp
    next
      fix y assume "AtDeleteItem y \<in> set (pcs[k := p])"
      then have "p = AtDeleteItem y \<or> AtDeleteItem y \<in> set pcs"
        by (rule in_set_update2)
      then have "AtDeleteItem y \<in> set pcs" using p by simp
      then show "x0 = Some y" by (rule D(2))
    next
      assume "winners (pcs[k := p]) = {}"
      then show "tbl' db = None \<or> tbl' db = x0" using W by simp
    next
      assume "winners (pcs[k := p]) = {}"
      then show "tbl' db = None" using W by simp
    next
      fix e assume "winners (pcs[k := p]) = {}"
      then show "Returned (Some e) \<notin> set (pcs[k := p])" using W by simp
    next
      fix i assume "i \<in> winners (pcs[k := p])"
      then show "winners (pcs[k := p]) = {i}" by (simp add: W)
    next
      fix i assume "i \<in> winners (pcs[k := p])"
      then have i: "i = k" by (simp add: W)
      have "\<forall>t'\<in>T. Unix t' < LeaseTimeout (newLockItem db (hs ! k) t)"
        using window t by simp
      then show "\<exists>r. tbl' db = Some r \<and> InstanceID r = hs ! i \<and> (\<forall>t\<in>T. Unix t < LeaseTimeout r)"
        by (simp add: tbl' i)
    qed
  next
    case False
    then obtain i where i: "i \<in> winners pcs" by auto
    then have "tbl db \<noteq> None" using D(7) by fastforce
    then obtain e where tbl': "tbl' = tbl" and p: "p = Returned (Some e)"
      using cases by auto
    have W: "winners (pcs[k := p]) = winners pcs"
      using k pc p by (simp add: winners_update_other)
    show ?thesis
      unfolding tbl'
    proof (rule acquire_invI)
      show "length (pcs[k := p]) = length hs" using D(1) by simp
    next
      fix y assume "AtDeleteItem y \<in> set (pcs[k := p])"
      then have "p = AtDeleteItem y \<or> AtDeleteItem y \<in> set pcs"
        by (rule in_set_update2)
      then have "AtDeleteItem y \<in> set pcs" using p by simp
      then show "x0 = Some y" by (rule D(2))
    next
      assume "winners (pcs[k := p]) = {}"
      then show "tbl db = None \<or> tbl db = x0" using False by (simp only: W)
    next
      assume "winners (pcs[k := p]) = {}"
      then show "tbl db = None" using False by (simp only: W)
    next
      fix e assume "winners (pcs[k := p]) = {}"
      then show "Returned (Some e) \<notin> set (pcs[k := p])" using False by (simp only: W)
    next
      fix j assume "j \<in> winners (pcs[k := p])"
      then have "j \<in> winners pcs" by (simp only: W)
      then show "winners (pcs[k := p]) = {j}" unfolding W by (rule D(6))
    next
      fix j assume "j \<in> winners (pcs[k := p])"
      then have "j \<in> winners pcs" by (simp only: W)
      then show "\<exists>r. tbl db = Some r \<and> InstanceID r = hs ! j \<and> (\<forall>t\<in>T. Unix t < LeaseTimeout r)"
        by (rule D(7))
    qed
  qed
qed

lemma acquire_inv_step:
  assumes inv: "acquire_inv db hs x0 T cfg"
    and stale: "\<forall>x. x0 = Some x \<longrightarrow> InstanceID x \<notin> set hs \<and> (\<forall>t\<in>T. LeaseTimeout x \<le> Unix t)"
    and window: "\<forall>t\<in>T. \<forall>t'\<in>T. Unix t < Unix t' + 300"
    and t: "snd e \<in> T"
  shows "acquire_inv db hs x0 T (sched_step db hs e cfg)"
proof -
  obtain tbl pcs where cfg: "cfg = (tbl, pcs)" by (cases cfg)
  obtain k t' where e: "e = (k, t')" by (cases e)
  have t': "t' \<in> T" using t e by simp
  have len: "length pcs = length hs"
    using inv unfolding cfg by (rule acquire_invD(1))
  show ?thesis
  proof (cases "k < length pcs")
    case False
    then show ?thesis using inv by (simp add: sched_step_def cfg e)
  next
    case k: True
    obtain tbl' p where step: "acquire_step db (hs ! k) t' tbl (pcs ! k) = (tbl', p)"
      by (cases "acquire_step db (hs ! k) t' tbl (pcs ! k)")
    have res: "sched_step db hs e cfg = (tbl', pcs[k := p])"
      using k len step by (simp add: sched_step_def cfg e)
    show ?thesis
    proof (cases "pcs ! k")
      case AtGetItem
      show ?thesis
        unfolding res
        using inv [unfolded cfg] stale t' k AtGetItem step [unfolded AtGetItem]
        by (rule acquire_inv_get)
    next
      case (AtDeleteItem x)
      show ?thesis
        unfolding res
        using inv [unfolded cfg] stale k AtDeleteItem step [unfolded AtDeleteItem]
        by (rule acquire_inv_delete)
    next
      case AtPutItem
      show ?thesis
        unfolding res
        using inv [unfolded cfg] window t' k AtPutItem step [unfolded AtPutItem]
        by (rule acquire_inv_put)
    next
      case (Returned r)
      then have "tbl' = tbl" "p = pcs ! k" using step by simp_all
      then have "(tbl', pcs[k := p]) = cfg"
        by (simp add: cfg)
      then show ?thesis using inv by (simp add: res)
    qed
  qed
qed

lemma acquire_inv_fold:
  assumes "acquire_inv db hs x0 T cfg"
    and "\<forall>x. x0 = Some x \<longrightarrow> InstanceID x \<notin> set hs \<and> (\<forall>t\<in>T. LeaseTimeout x \<le> Unix t)"
    and "\<forall>t\<in>T. \<forall>t'\<in>T. Unix t < Unix t' + 300"
    and "snd ` set sched \<subseteq> T"
  shows "acquire_inv db hs x0 T (fold (sched_step db hs) sched cfg)"
  using assms
proof (induction sched arbitrary: cfg)
  case Nil
  then show ?case by simp
next
  case (Cons e sched)
  have "acquire_inv db hs x0 T (sched_step db hs e cfg)"
    using Cons.prems by (intro acquire_inv_step) auto
  then show ?case
    using Cons.prems by (simp add: Cons.IH)
qed

text \<open>
  Claim C1, amended. An acquisition is a \<^verbatim>\<open>GetItem\<close>, a check of the expiry by the
  caller, a \<^verbatim>\<open>DeleteItem\<close> of an expired item conditioned on that item's holder id, and a
  \<^verbatim>\<open>PutItem\<close> conditioned on the absence of an item; only each request is atomic. Let
  any number of invocations with the holder ids \<open>hs\<close> run \<open>acquireDynamoLock\<close> for one
  database, interleaved in any order at the granularity of requests, with no fault.
  Suppose there is no prior valid lease (no item, or an item that is expired at every
  clock reading of the run), that the holder of the expired item is none of \<open>hs\<close>, and
  that any two clock readings of the run are less than the 300 seconds of a lease
  apart. Then at every point of the run at most one invocation has returned without
  error; and once all have returned, exactly one has, the item of the database is held
  by it, and every other invocation has returned an error.
\<close>

theorem concurrent_acquires_exclude_each_other:
  assumes stale: "tbl db = None
            \<or> (\<exists>x. tbl db = Some x \<and> InstanceID x \<notin> set hs
                   \<and> (\<forall>e\<in>set sched. LeaseTimeout x \<le> Unix (snd e)))"
    and window: "\<forall>e\<in>set sched. \<forall>e'\<in>set sched. Unix (snd e) < Unix (snd e') + 300"
    and result: "run_acquires db hs sched tbl = (tbl', pcs)"
  shows "length pcs = length hs
     \<and> (\<forall>i j. i < length hs \<and> j < length hs \<and> pcs ! i = Returned None \<and> pcs ! j = Returned None
            \<longrightarrow> i = j)
     \<and> (hs \<noteq> [] \<and> (\<forall>i. i < length hs \<longrightarrow> (\<exists>e. pcs ! i = Returned e)) \<longrightarrow>
          (\<exists>i. i < length hs \<and> pcs ! i = Returned None
               \<and> (\<exists>r. tbl' db = Some r \<and> InstanceID r = hs ! i)
               \<and> (\<forall>j. j < length hs \<and> j \<noteq> i \<longrightarrow> (\<exists>err. pcs ! j = Returned (Some err)))))"
proof -
  let ?T = "snd ` set sched"
  have stale': "\<forall>x. tbl db = Some x \<longrightarrow> InstanceID x \<notin> set hs \<and> (\<forall>t\<in>?T. LeaseTimeout x \<le> Unix t)"
    using stale by auto
  have window': "\<forall>t\<in>?T. \<forall>t'\<in>?T. Unix t < Unix t' + 300"
    using window by auto
  have "acquire_inv db hs (tbl db) ?T (fold (sched_step db hs) sched (tbl, replicate (length hs) AtGetItem))"
    using acquire_inv_init stale' window' by (rule acquire_inv_fold) simp
  then have inv: "acquire_inv db hs (tbl db) ?T (tbl', pcs)"
    using result by (simp add: run_acquires_def)
  note D = acquire_invD [OF inv]
  have len: "length pcs = length hs" by (rule D(1))
  have unique: "i = j"
    if "i < length hs" "j < length hs" "pcs ! i = Returned None" "pcs ! j = Returned None" for i j
  proof -
    have i: "i \<in> winners pcs" and j: "j \<in> winners pcs"
      using that len by (simp_all add: winners_def)
    have "winners pcs = {i}" using i by (rule D(6))
    then show ?thesis using j by simp
  qed
  have one: "\<exists>i. i < length hs \<and> pcs ! i = Returned None
               \<and> (\<exists>r. tbl' db = Some r \<and> InstanceID r = hs ! i)
               \<and> (\<forall>j. j < length hs \<and> j \<noteq> i \<longrightarrow> (\<exists>err. pcs ! j = Returned (Some err)))"
    if ne: "hs \<noteq> []" and all: "\<forall>i. i < length hs \<longrightarrow> (\<exists>e. pcs ! i = Returned e)"
  proof -
    have "winners pcs \<noteq> {}"
    proof
      assume W0: "winners pcs = {}"
      have 0: "0 < length pcs" using ne len by simp
      then obtain e where e: "pcs ! 0 = Returned e" using all len by auto
      have "e \<noteq> None" using W0 0 e by (auto simp: winners_def)
      then obtain err where "pcs ! 0 = Returned (Some err)" using e by auto
      then have "Returned (Some err) \<in> set pcs" using 0 by (metis nth_mem)
      then show False using D(5) [OF W0] by simp
    qed
    then obtain i where i: "i \<in> winners pcs" by auto
    then have il: "i < length hs" and ir: "pcs ! i = Returned None"
      using len by (simp_all add: winners_def)
    obtain r where r: "tbl' db = Some r" "InstanceID r = hs ! i"
      using D(7) [OF i] by blast
    have others: "\<exists>err. pcs ! j = Returned (Some err)" if j: "j < length hs" "j \<noteq> i" for j
    proof -
      obtain e where e: "pcs ! j = Returned e" using all j by auto
      have "e \<noteq> None" using unique [OF j(1) il _ ir] e j(2) by auto
      then show ?thesis using e by auto
    qed
    show ?thesis using il ir r others by blast
  qed
  show ?thesis using len unique one by blast
qed

subsection \<open>One invocation alone\<close>

text \<open>
  The steps are those of \<open>acquireDynamoLock\<close>: in a world without faults, one invocation
  that runs its three steps with the clock readings the code takes ends with the table
  and the result of \<open>acquireDynamoLock\<close>.
\<close>

lemma run_acquires_single:
  "run_acquires db [h] [(0, t1), (0, t2), (0, t3)] tbl =
     (case acquire_step db h t1 tbl AtGetItem of
        (tbl1, p1) \<Rightarrow>
          (case acquire_step db h t2 tbl1 p1 of
             (tbl2, p2) \<Rightarrow>
               (case acquire_step db h t3 tbl2 p2 of (tbl3, p3) \<Rightarrow> (tbl3, [p3]))))"
  by (simp add: run_acquires_def sched_step_def split: prod.splits)

lemma acquire_as_steps:
  assumes nf: "\<forall>n. \<not> fault w n"
  shows "run_acquires db [h]
           [(0, clock w (ticks w)), (0, clock w (ticks w)), (0, clock w (Suc (ticks w)))]
           (lock_items w)
         = (lock_items (snd (acquireDynamoLock w db h)),
            [Returned (fst (acquireDynamoLock w db h))])"
proof (cases "lock_items w db")
  case None
  have f0: "\<not> faulted w" using nf by (rule no_fault_faulted)
  have f1: "\<not> faulted (emit (EvGetItem db) w)" using nf by (simp add: faulted_def)
  show ?thesis
    using None f1
    by (simp add: run_acquires_single acquire_absent [OF f0 None] acquire_put_result
          acquire_put_lock_items table_GetItem_def table_PutItem_def)
next
  case (Some x)
  have f0: "\<not> faulted w" using nf by (rule no_fault_faulted)
  show ?thesis
  proof (cases "LeaseTimeout x > Unix (clock w (ticks w))")
    case True
    show ?thesis
      using Some True acquire_valid [OF f0 Some True]
      by (simp add: run_acquires_single table_GetItem_def)
  next
    case False
    let ?w1 = "snd (time_Now (emit (EvGetItem db) w))"
    let ?w2 = "snd (releaseDynamoLock ?w1 db (InstanceID x))"
    have eq: "acquireDynamoLock w db h = acquireDynamoLock_put ?w2 db h"
      using f0 Some False by (rule acquire_expired)
    have f1: "\<not> faulted ?w1" using nf by (simp add: faulted_def)
    have f2: "\<not> faulted ?w2" using nf by (simp add: faulted_def)
    have items: "lock_items ?w2 = (lock_items w)(db := None)"
      using f1 Some by (simp add: release_lock_items)
    show ?thesis
      using Some False f2
      by (simp add: run_acquires_single eq acquire_put_result acquire_put_lock_items items
            table_GetItem_def table_DeleteItem_def table_PutItem_def)
  qed
qed

lemma Unix_2000: "Unix (2000 * Second) = 2000" "Unix (2000 * Second + 1) = 2000"
  by (simp_all add: Unix_def Second_def)

text \<open>
  Claim C1, as stated, fails. The check of the prior state and the write are not one
  conditional request: reclaiming the expired lease of \<open>lambda-1\<close> takes three requests
  (\<^verbatim>\<open>GetItem\<close>, \<^verbatim>\<open>DeleteItem\<close>, \<^verbatim>\<open>PutItem\<close>), the expiry is compared by the caller, and
  the condition of the \<^verbatim>\<open>PutItem\<close> alone rejects the write while the expired item is
  there. And two concurrent attempts with distinct holder ids and no prior valid lease
  can both succeed: the expired item is held by \<open>lambda-1\<close>; the invocations \<open>lambda-1\<close>
  and \<open>lambda-2\<close> both read it; \<open>lambda-1\<close> deletes it and writes its new lease; the
  delete of \<open>lambda-2\<close>, conditioned on the holder id \<open>lambda-1\<close> it has read, removes that
  new lease, and its write succeeds too.
\<close>

theorem acquire_is_not_one_conditional_write_counterexample:
  "trace (snd (acquireDynamoLock
       (example_world [''database.db'' \<mapsto> example_item ''lambda-1'' 1000] Map.empty (\<lambda>n. False))
       ''database.db'' ''lambda-2''))
     = [EvGetItem ''database.db'', EvDeleteItem ''database.db'' ''lambda-1'',
        EvPutItem (newLockItem ''database.db'' ''lambda-2'' (2000 * Second + 1))]
   \<and> table_PutItem [''database.db'' \<mapsto> example_item ''lambda-1'' 1000]
        (newLockItem ''database.db'' ''lambda-2'' (2000 * Second + 1))
     = Inl ConditionalCheckFailedException
   \<and> snd (run_acquires ''database.db'' [''lambda-1'', ''lambda-2'']
        [(0, 2000 * Second), (Suc 0, 2000 * Second), (0, 2000 * Second), (0, 2000 * Second),
         (Suc 0, 2000 * Second), (Suc 0, 2000 * Second)]
        [''database.db'' \<mapsto> example_item ''lambda-1'' 1000])
     = [Returned None, Returned None]"
proof (intro conjI)
  let ?w = "example_world [''database.db'' \<mapsto> example_item ''lambda-1'' 1000] Map.empty (\<lambda>n. False)"
  have f0: "\<not> faulted ?w" by (simp add: faulted_def)
  have ex: "\<not> LeaseTimeout (example_item ''lambda-1'' 1000) > Unix (clock ?w (ticks ?w))"
    by (simp add: Unix_2000)
  show "trace (snd (acquireDynamoLock ?w ''database.db'' ''lambda-2''))
     = [EvGetItem ''database.db'', EvDeleteItem ''database.db'' ''lambda-1'',
        EvPutItem (newLockItem ''database.db'' ''lambda-2'' (2000 * Second + 1))]"
    by (subst acquire_expired [OF f0 _ ex]) simp_all
next
  show "table_PutItem [''database.db'' \<mapsto> example_item ''lambda-1'' 1000]
        (newLockItem ''database.db'' ''lambda-2'' (2000 * Second + 1))
     = Inl ConditionalCheckFailedException"
    by (simp add: table_PutItem_def)
next
  show "snd (run_acquires ''database.db'' [''lambda-1'', ''lambda-2'']
        [(0, 2000 * Second), (Suc 0, 2000 * Second), (0, 2000 * Second), (0, 2000 * Second),
         (Suc 0, 2000 * Second), (Suc 0, 2000 * Second)]
        [''database.db'' \<mapsto> example_item ''lambda-1'' 1000])
     = [Returned None, Returned None]"
    by (simp add: run_acquires_def sched_step_def table_GetItem_def table_DeleteItem_def
          table_PutItem_def Unix_2000)
qed

text \<open>
  The same race for the expired lease of \<open>lambda-1\<close>, run by \<open>lambda-2\<close> and \<open>lambda-3\<close>:
  \<open>lambda-2\<close> acquires, the conditional delete of \<open>lambda-3\<close> fails on the new item, and
  its write is rejected.
\<close>

theorem concurrent_acquires_exclude_each_other_witness:
  "run_acquires ''database.db'' [''lambda-2'', ''lambda-3'']
        [(0, 2000 * Second), (Suc 0, 2000 * Second), (0, 2000 * Second), (0, 2000 * Second),
         (Suc 0, 2000 * Second), (Suc 0, 2000 * Second)]
        [''database.db'' \<mapsto> example_item ''lambda-1'' 1000]
     = ([''database.db'' \<mapsto> newLockItem ''database.db'' ''lambda-2'' (2000 * Second)],
        [Returned None,
         Returned (Some (Errorf ''failed to acquire lock (race condition): ''
                           (AwsErr ConditionalCheckFailedException)))])
   \<and> (\<exists>i. i < length [''lambda-2'', ''lambda-3'']
          \<and> [Returned None,
              Returned (Some (Errorf ''failed to acquire lock (race condition): ''
                           (AwsErr ConditionalCheckFailedException)))] ! i = Returned None
          \<and> (\<exists>r. [''database.db'' \<mapsto> newLockItem ''database.db'' ''lambda-2'' (2000 * Second)]
                    ''database.db'' = Some r
                 \<and> InstanceID r = [''lambda-2'', ''lambda-3''] ! i))"
proof -
  let ?sched = "[(0, 2000 * Second), (Suc 0, 2000 * Second), (0, 2000 * Second), (0, 2000 * Second),
         (Suc 0, 2000 * Second), (Suc 0, 2000 * Second)] :: (nat \<times> Time) list"
  let ?tbl = "[''database.db'' \<mapsto> example_item ''lambda-1'' 1000]"
  let ?hs = "[''lambda-2'', ''lambda-3'']"
  let ?tbl' = "[''database.db'' \<mapsto> newLockItem ''database.db'' ''lambda-2'' (2000 * Second)]"
  let ?pcs = "[Returned None,
         Returned (Some (Errorf ''failed to acquire lock (race condition): ''
                           (AwsErr ConditionalCheckFailedException)))]"
  have result: "run_acquires ''database.db'' ?hs ?sched ?tbl = (?tbl', ?pcs)"
    by (simp add: run_acquires_def sched_step_def table_GetItem_def table_DeleteItem_def
          table_PutItem_def Unix_2000)
  have stale: "?tbl ''database.db'' = None
            \<or> (\<exists>x. ?tbl ''database.db'' = Some x \<and> InstanceID x \<notin> set ?hs
                   \<and> (\<forall>e\<in>set ?sched. LeaseTimeout x \<le> Unix (snd e)))"
    by (simp add: Unix_2000)
  have window: "\<forall>e\<in>set ?sched. \<forall>e'\<in>set ?sched. Unix (snd e) < Unix (snd e') + 300"
    by (simp add: Unix_2000)
  have hs_ne: "?hs \<noteq> []" by simp
  have all: "\<forall>i. i < length ?hs \<longrightarrow> (\<exists>e. ?pcs ! i = Returned e)"
    by (simp add: less_Suc_eq nth_Cons')
  from concurrent_acquires_exclude_each_other [OF stale window result] hs_ne all
  have "\<exists>i. i < length ?hs \<and> ?pcs ! i = Returned None
               \<and> (\<exists>r. ?tbl' ''database.db'' = Some r \<and> InstanceID r = ?hs ! i)
               \<and> (\<forall>j. j < length ?hs \<and> j \<noteq> i \<longrightarrow> (\<exists>err. ?pcs ! j = Returned (Some err)))"
    by blast
  then have "\<exists>i. i < length ?hs \<and> ?pcs ! i = Returned None
               \<and> (\<exists>r. ?tbl' ''database.db'' = Some r \<and> InstanceID r = ?hs ! i)"
    by blast
  then show ?thesis using result by blast
qed

end
